theory Spec2Isabelle
  imports Complex_Main "HOL-Library.AList" "HOL-Library.Multiset"
begin

section \<open>Conventions and errors\<close>

text \<open>
  Exceptions that escape a function are values: \<open>Inl e\<close> of a sum type.
  \<open>sys.exit(msg)\<close> of \<^verbatim>\<open>plot_ssim_rebuffer.py\<close> is kept apart, with the scheme key that
  the message names.
\<close>

text \<open>
  Python floats are modelled as exact real numbers throughout; rounding is outside this
  development.
\<close>

datatype error = ConfigResolutionError string | ZeroDivisionError

datatype 'k exit = NotInRebuffer 'k | NoDataFound

section \<open>Experiment metadata resolver\<close>

record expt_config =
  cfg_id :: string
  cfg_cc :: string
  cfg_abr :: "string option"

text \<open>
  The cache (\<open>expt\<close> in \<^verbatim>\<open>plot_ssim_rebuffer.py\<close>, \<open>expt_id_cache\<close> in
  \<^verbatim>\<open>plot_bbr_vs_cubic.py\<close>) together with a log of the lookups that were issued against
  the external metadata store. The log is what makes "no second lookup" a statement
  about the model.
\<close>

record resolver =
  cache :: "string \<rightharpoonup> expt_config"
  lookups :: "string list"

text \<open>
  Modelled from the spec: \<open>retrieve_expt_config\<close> of \<^verbatim>\<open>helpers.py\<close>, which is not among
  the sources. On a cache hit the cached value is returned and nothing else happens. On a
  miss the external store (\<open>lookup\<close>, standing for the Postgres cursor) is asked; a
  failed or malformed answer (\<open>None\<close>) is a \<open>ConfigResolutionError\<close> and nothing is cached,
  a good answer is stored under the experiment id and returned.
\<close>

definition retrieve_expt_config ::
  "(string \<Rightarrow> expt_config option) \<Rightarrow> string \<Rightarrow> resolver \<Rightarrow> (error + expt_config) \<times> resolver"
where
  "retrieve_expt_config lookup expt_id rs =
     (case cache rs expt_id of
        Some c \<Rightarrow> (Inr c, rs)
      | None \<Rightarrow>
          (case lookup expt_id of
             None \<Rightarrow> (Inl (ConfigResolutionError expt_id),
                       rs\<lparr>lookups := lookups rs @ [expt_id]\<rparr>)
           | Some c \<Rightarrow> (Inr c,
                        rs\<lparr>cache := (cache rs)(expt_id \<mapsto> c),
                           lookups := lookups rs @ [expt_id]\<rparr>)))"

text \<open>A run resolves many ids one after the other; the state is threaded through.\<close>

fun resolve_all ::
  "(string \<Rightarrow> expt_config option) \<Rightarrow> string list \<Rightarrow> resolver \<Rightarrow> resolver"
where
  "resolve_all lookup [] rs = rs"
| "resolve_all lookup (i # is) rs = resolve_all lookup is (snd (retrieve_expt_config lookup i rs))"

text \<open>What an id resolves to from a given state: the cached value, else the store's.\<close>

definition resolved :: "(string \<Rightarrow> expt_config option) \<Rightarrow> resolver \<Rightarrow> string \<Rightarrow> expt_config option"
where
  "resolved lookup rs expt_id =
     (case cache rs expt_id of Some c \<Rightarrow> Some c | None \<Rightarrow> lookup expt_id)"

section \<open>SSIM conversion\<close>

text \<open>
  Modelled from the spec: \<open>ssim_index_to_db\<close> of \<^verbatim>\<open>helpers.py\<close>, which is not among the
  sources: \<open>db = -10 * log10(1 - index)\<close> when \<open>index < 1\<close>, undefined otherwise.
\<close>

definition ssim_index_to_db :: "real \<Rightarrow> real option" where
  "ssim_index_to_db index =
     (if index < 1 then Some (- 10 * log 10 (1 - index)) else None)"

section \<open>SSIM aggregation (plot\_ssim\_rebuffer.py)\<close>

text \<open>A point of the \<open>video_acked\<close> measurement: the fields the script reads.\<close>

record video_acked_pt =
  pt_expt_id :: string
  pt_ssim_index :: "real option"

text \<open>
  Modelled from the spec: \<open>get_ssim_index\<close> of \<^verbatim>\<open>helpers.py\<close>, which is not among the
  sources. A point without the field has no index; an index of exactly 1 is excluded
  from aggregation.
\<close>

definition get_ssim_index :: "video_acked_pt \<Rightarrow> real option" where
  "get_ssim_index pt =
     (case pt_ssim_index pt of
        None \<Rightarrow> None
      | Some v \<Rightarrow> if v = 1 then None else Some v)"

text \<open>
  \<open>do_collect_ssim\<close>: the loop over the points of one time window. The dictionary \<open>d\<close>
  is an association list in insertion order; \<open>get_abr_cc\<close> (of \<^verbatim>\<open>helpers.py\<close>) is a
  parameter. An exception of the resolver ends the loop. The sums are exact reals here;
  \<open>do_collect_ssim_with\<close> below is the same loop with the rounding addition of Python's
  floats.
\<close>

fun do_collect_ssim ::
  "(string \<Rightarrow> expt_config option) \<Rightarrow> (expt_config \<Rightarrow> 'k) \<Rightarrow> video_acked_pt list \<Rightarrow>
   ('k \<times> real \<times> nat) list \<times> resolver \<Rightarrow> error + (('k \<times> real \<times> nat) list \<times> resolver)"
where
  "do_collect_ssim lookup get_abr_cc [] (d, rs) = Inr (d, rs)"
| "do_collect_ssim lookup get_abr_cc (pt # pts) (d, rs) =
     (case retrieve_expt_config lookup (pt_expt_id pt) rs of
        (Inl e, rs') \<Rightarrow> Inl e
      | (Inr expt_config, rs') \<Rightarrow>
          (let abr_cc = get_abr_cc expt_config;
               d1 = (if map_of d abr_cc = None then AList.update abr_cc (0, 0) d else d);
               d2 = (case get_ssim_index pt of
                       None \<Rightarrow> d1
                     | Some ssim_index \<Rightarrow>
                         (case map_of d1 abr_cc of
                            Some (s, c) \<Rightarrow> AList.update abr_cc (s + ssim_index, c + 1) d1
                          | None \<Rightarrow> d1))
           in do_collect_ssim lookup get_abr_cc pts (d2, rs')))"

text \<open>The loop of \<open>collect_ssim\<close> over the time windows, one page of points each.\<close>

fun collect_ssim_windows ::
  "(string \<Rightarrow> expt_config option) \<Rightarrow> (expt_config \<Rightarrow> 'k) \<Rightarrow> video_acked_pt list list \<Rightarrow>
   ('k \<times> real \<times> nat) list \<times> resolver \<Rightarrow> error + (('k \<times> real \<times> nat) list \<times> resolver)"
where
  "collect_ssim_windows lookup get_abr_cc [] st = Inr st"
| "collect_ssim_windows lookup get_abr_cc (page # pages) st =
     (case do_collect_ssim lookup get_abr_cc page st of
        Inl e \<Rightarrow> Inl e
      | Inr st' \<Rightarrow> collect_ssim_windows lookup get_abr_cc pages st')"

text \<open>
  After the second loop of \<open>collect_ssim\<close> a key is bound either to the \<open>[sum, count]\<close>
  list it had (count zero) or to what \<open>ssim_index_to_db\<close> returned for the average.
\<close>

datatype 'db ssim_entry = SumCount real nat | AvgDb 'db

text \<open>
  The second loop: the new dictionary and the keys a warning was written for, in order.
  \<open>ssim_index_to_db\<close> is the parameter \<open>to_db\<close>.
\<close>

fun average_ssim ::
  "(real \<Rightarrow> 'db) \<Rightarrow> ('k \<times> real \<times> nat) list \<Rightarrow> ('k \<times> 'db ssim_entry) list \<times> 'k list"
where
  "average_ssim to_db [] = ([], [])"
| "average_ssim to_db ((abr_cc, s, c) # d) =
     (let (d', warnings) = average_ssim to_db d
      in if c = 0 then ((abr_cc, SumCount s c) # d', abr_cc # warnings)
         else ((abr_cc, AvgDb (to_db (s / real c))) # d', warnings))"

definition collect_ssim ::
  "(string \<Rightarrow> expt_config option) \<Rightarrow> (expt_config \<Rightarrow> 'k) \<Rightarrow> (real \<Rightarrow> 'db) \<Rightarrow>
   video_acked_pt list list \<Rightarrow> resolver \<Rightarrow>
   error + (('k \<times> 'db ssim_entry) list \<times> 'k list \<times> resolver)"
where
  "collect_ssim lookup get_abr_cc to_db pages rs =
     (case collect_ssim_windows lookup get_abr_cc pages ([], rs) of
        Inl e \<Rightarrow> Inl e
      | Inr (d, rs') \<Rightarrow>
          (let (d', warnings) = average_ssim to_db d in Inr (d', warnings, rs')))"

text \<open>The \<open>(sum, count)\<close> a key stands for; a key that is absent has accumulated nothing.\<close>

definition sum_count :: "('k \<times> real \<times> nat) list \<Rightarrow> 'k \<Rightarrow> real \<times> nat" where
  "sum_count d k = (case map_of d k of None \<Rightarrow> (0, 0) | Some p \<Rightarrow> p)"

text \<open>
  Two notions for stating what the accumulation computes: the scheme key a point is
  filed under (its experiment's configuration, as resolved from the state the run starts
  in), and the usable SSIM indices of the points filed under a key, in stream order.
\<close>

definition scheme_of ::
  "(string \<Rightarrow> expt_config option) \<Rightarrow> resolver \<Rightarrow> (expt_config \<Rightarrow> 'k) \<Rightarrow>
   video_acked_pt \<Rightarrow> 'k option"
where
  "scheme_of lookup rs get_abr_cc pt =
     map_option get_abr_cc (resolved lookup rs (pt_expt_id pt))"

definition samples_of ::
  "(string \<Rightarrow> expt_config option) \<Rightarrow> resolver \<Rightarrow> (expt_config \<Rightarrow> 'k) \<Rightarrow>
   video_acked_pt list \<Rightarrow> 'k \<Rightarrow> real list"
where
  "samples_of lookup rs get_abr_cc pts k =
     List.map_filter
       (\<lambda>pt. if scheme_of lookup rs get_abr_cc pt = Some k then get_ssim_index pt else None)
       pts"

section \<open>Floating-point accumulation\<close>

text \<open>
  The sums of \<open>do_collect_ssim\<close> are Python floats: \<open>d[abr_cc][0]\<close> starts as \<open>0.0\<close> and
  \<open>+=\<close> adds IEEE 754 binary64 numbers, rounding every partial sum to the nearest
  double, ties to even. A double is the real number it denotes. \<open>f64_round\<close> rounds a real
  to the nearest double: the spacing of the doubles around \<open>x\<close> is \<open>2\<close> to the power
  \<open>\<lfloor>log 2 \<bar>x\<bar>\<rfloor> - 52\<close>, and that of the subnormal ones is \<open>2\<close> to the power \<open>- 1074\<close>.
  Overflow to infinity, signed zeros and NaN are left out: sums of SSIM indices stay far
  below \<open>2 ^ 1024\<close>.
\<close>

definition round_half_even :: "real \<Rightarrow> int" where
  "round_half_even y =
     (let f = \<lfloor>y\<rfloor>; r = y - of_int f
      in if r < 1 / 2 then f else if 1 / 2 < r then f + 1
         else if even f then f else f + 1)"

definition f64_round :: "real \<Rightarrow> real" where
  "f64_round x =
     (if x = 0 then 0
      else (let e = max \<lfloor>log 2 \<bar>x\<bar>\<rfloor> (- 1022);
                ulp = 2 powr (of_int (e - 52))
            in sgn x * of_int (round_half_even (\<bar>x\<bar> / ulp)) * ulp))"

text \<open>Python's \<open>+\<close> and \<open>/\<close> on floats: the exact result, rounded.\<close>

definition f64_add :: "real \<Rightarrow> real \<Rightarrow> real" where
  "f64_add a b = f64_round (a + b)"

definition f64_true_divide :: "real \<Rightarrow> real \<Rightarrow> real" where
  "f64_true_divide a b = f64_round (a / b)"

text \<open>
  \<open>do_collect_ssim\<close> and the loop over the windows once more, with the addition of
  \<open>d[abr_cc][0] += ssim_index\<close> as the parameter \<open>add\<close>: \<open>f64_add\<close> is what Python
  computes, \<open>(+)\<close> gives \<open>do_collect_ssim\<close> as defined above, the sums of which are exact.
\<close>

fun do_collect_ssim_with ::
  "(real \<Rightarrow> real \<Rightarrow> real) \<Rightarrow> (string \<Rightarrow> expt_config option) \<Rightarrow> (expt_config \<Rightarrow> 'k) \<Rightarrow>
   video_acked_pt list \<Rightarrow>
   ('k \<times> real \<times> nat) list \<times> resolver \<Rightarrow> error + (('k \<times> real \<times> nat) list \<times> resolver)"
where
  "do_collect_ssim_with add lookup get_abr_cc [] (d, rs) = Inr (d, rs)"
| "do_collect_ssim_with add lookup get_abr_cc (pt # pts) (d, rs) =
     (case retrieve_expt_config lookup (pt_expt_id pt) rs of
        (Inl e, rs') \<Rightarrow> Inl e
      | (Inr expt_config, rs') \<Rightarrow>
          (let abr_cc = get_abr_cc expt_config;
               d1 = (if map_of d abr_cc = None then AList.update abr_cc (0, 0) d else d);
               d2 = (case get_ssim_index pt of
                       None \<Rightarrow> d1
                     | Some ssim_index \<Rightarrow>
                         (case map_of d1 abr_cc of
                            Some (s, c) \<Rightarrow> AList.update abr_cc (add s ssim_index, c + 1) d1
                          | None \<Rightarrow> d1))
           in do_collect_ssim_with add lookup get_abr_cc pts (d2, rs')))"

fun collect_ssim_windows_with ::
  "(real \<Rightarrow> real \<Rightarrow> real) \<Rightarrow> (string \<Rightarrow> expt_config option) \<Rightarrow> (expt_config \<Rightarrow> 'k) \<Rightarrow>
   video_acked_pt list list \<Rightarrow>
   ('k \<times> real \<times> nat) list \<times> resolver \<Rightarrow> error + (('k \<times> real \<times> nat) list \<times> resolver)"
where
  "collect_ssim_windows_with add lookup get_abr_cc [] st = Inr st"
| "collect_ssim_windows_with add lookup get_abr_cc (page # pages) st =
     (case do_collect_ssim_with add lookup get_abr_cc page st of
        Inl e \<Rightarrow> Inl e
      | Inr st' \<Rightarrow> collect_ssim_windows_with add lookup get_abr_cc pages st')"

text \<open>The count of every key of the dictionary, without the sums.\<close>

definition counts_of :: "('k \<times> real \<times> nat) list \<Rightarrow> ('k \<times> nat) list" where
  "counts_of d = map (\<lambda>(k, s, c). (k, c)) d"

section \<open>The reporter (plot\_ssim\_rebuffer.py)\<close>

text \<open>
  \<open>np.ceil\<close> returns a NumPy float, so \<open>rebuf_minutes / total_minutes\<close> is a NumPy
  division: a zero divisor raises nothing and yields an infinity or NaN.
\<close>

datatype np_float = Finite real | PosInf | NegInf | NaN

definition np_true_divide :: "real \<Rightarrow> real \<Rightarrow> np_float" where
  "np_true_divide a b =
     (if b \<noteq> 0 then Finite (a / b)
      else if 0 < a then PosInf else if a < 0 then NegInf else NaN)"

fun np_multiply :: "np_float \<Rightarrow> real \<Rightarrow> np_float" where
  "np_multiply (Finite a) c = Finite (a * c)"
| "np_multiply PosInf c = (if 0 < c then PosInf else if c < 0 then NegInf else NaN)"
| "np_multiply NegInf c = (if 0 < c then NegInf else if c < 0 then PosInf else NaN)"
| "np_multiply NaN c = NaN"

text \<open>The value of \<open>rebuffer[abr_cc]\<close>: the three entries the reporter reads.\<close>

record rebuffer_rec =
  total_play :: real
  total_rebuf :: real
  rebuf_minute :: real

text \<open>
  What one iteration hands to the plotting layer (\<open>ax.scatter(x, y)\<close> and
  \<open>ax.annotate(abr_cc_str, (x, y))\<close>): the coordinates, and the three values the label is
  formatted from (the key, \<open>total_rebuf / 60\<close> and \<open>total_play / 3600\<close>).
\<close>

record ('k, 'v) scatter_point =
  sp_x :: np_float
  sp_y :: 'v
  sp_key :: 'k
  sp_rebuf_m :: real
  sp_play_h :: real

text \<open>
  \<open>plot_ssim_rebuffer\<close>: the loop over the keys of \<open>ssim\<close>, in the dictionary's order.
  \<open>Inl\<close> is the \<open>sys.exit\<close> inside the loop, which happens before the figure is saved;
  \<open>Inr\<close> carries the points of the saved figure. Both dictionaries are association
  lists.
\<close>

fun plot_ssim_rebuffer ::
  "('k \<times> 'v) list \<Rightarrow> ('k \<times> rebuffer_rec) list \<Rightarrow> 'k exit + ('k, 'v) scatter_point list"
where
  "plot_ssim_rebuffer [] rebuffer = Inr []"
| "plot_ssim_rebuffer ((abr_cc, y) # ssim) rebuffer =
     (case map_of rebuffer abr_cc of
        None \<Rightarrow> Inl (NotInRebuffer abr_cc)
      | Some r \<Rightarrow>
          (let total_minutes = real_of_int \<lceil>total_play r / 60\<rceil>;
               rebuf_minutes = rebuf_minute r;
               rebuf_rate = np_true_divide rebuf_minutes total_minutes;
               x = np_multiply rebuf_rate 100
           in (case plot_ssim_rebuffer ssim rebuffer of
                 Inl e \<Rightarrow> Inl e
               | Inr points \<Rightarrow>
                   Inr (\<lparr>sp_x = x, sp_y = y, sp_key = abr_cc,
                         sp_rebuf_m = total_rebuf r / 60,
                         sp_play_h = total_play r / 3600\<rparr> # points))))"

text \<open>The end of \<open>main\<close>: the emptiness test, then the reporter.\<close>

definition report ::
  "('k \<times> 'v) list \<Rightarrow> ('k \<times> rebuffer_rec) list \<Rightarrow> 'k exit + ('k, 'v) scatter_point list"
where
  "report ssim rebuffer =
     (if ssim = [] \<or> rebuffer = [] then Inl NoDataFound
      else plot_ssim_rebuffer ssim rebuffer)"

section \<open>plot\_bbr\_vs\_cubic.py\<close>

text \<open>
  A session key is a 4-tuple; the script reads only \<open>session[3]\<close>, the experiment id.
\<close>

type_synonym session = "string \<times> nat \<times> string \<times> string"

definition session_expt_id :: "session \<Rightarrow> string" where
  "session_expt_id session = snd (snd (snd session))"

text \<open>The value of \<open>d[session][video_ts]\<close> in \<open>plot_ssim\<close>: the field the script reads.\<close>

record dsv =
  dsv_ssim_index :: real

text \<open>
  The inner loop of \<open>plot_ssim\<close> over the \<open>video_ts\<close> of one session. \<open>ds\<close> is the whole
  \<open>d[session]\<close>, in which \<open>prev_ts\<close> is looked up; the pair of lists is
  \<open>(ssim_by_cc[cc], ssim_var_by_cc[cc])\<close>. \<open>VIDEO_DURATION\<close> (of \<^verbatim>\<open>collect_data.py\<close>) and
  \<open>ssim_index_to_db\<close> (of \<^verbatim>\<open>helpers.py\<close>) are the parameters \<open>video_duration\<close> and
  \<open>to_db\<close>.
\<close>

fun plot_ssim_session ::
  "(real \<Rightarrow> real) \<Rightarrow> int \<Rightarrow> (int \<times> dsv) list \<Rightarrow> (int \<times> dsv) list \<Rightarrow>
   real list \<times> real list \<Rightarrow> real list \<times> real list"
where
  "plot_ssim_session to_db video_duration ds [] acc = acc"
| "plot_ssim_session to_db video_duration ds ((video_ts, v) # rest) (ssims, vars) =
     (let curr_ssim_index = dsv_ssim_index v
      in if curr_ssim_index = 1 then
           plot_ssim_session to_db video_duration ds rest (ssims, vars)
         else
           (let curr_ssim_db = to_db curr_ssim_index;
                ssims' = ssims @ [curr_ssim_db];
                prev_ts = video_ts - video_duration
            in (case map_of ds prev_ts of
                  None \<Rightarrow> plot_ssim_session to_db video_duration ds rest (ssims', vars)
                | Some prev \<Rightarrow>
                    (let prev_ssim_index = dsv_ssim_index prev
                     in if prev_ssim_index = 1 then
                          plot_ssim_session to_db video_duration ds rest (ssims', vars)
                        else
                          (let prev_ssim_db = to_db prev_ssim_index;
                               ssim_diff = \<bar>curr_ssim_db - prev_ssim_db\<bar>
                           in plot_ssim_session to_db video_duration ds rest
                                (ssims', vars @ [ssim_diff]))))))"

text \<open>The list a key is bound to, once the key has been created.\<close>

definition series :: "(string \<times> 'a list) list \<Rightarrow> string \<Rightarrow> 'a list" where
  "series m cc = (case map_of m cc of None \<Rightarrow> [] | Some xs \<Rightarrow> xs)"

text \<open>
  The outer loop of \<open>plot_ssim\<close> over the sessions. The state is \<open>ssim_by_cc\<close>,
  \<open>ssim_var_by_cc\<close> and the resolver; the two dictionaries are what is handed to the
  two CDF plots.
\<close>

fun plot_ssim_loop ::
  "(real \<Rightarrow> real) \<Rightarrow> int \<Rightarrow> (string \<Rightarrow> expt_config option) \<Rightarrow>
   (session \<times> (int \<times> dsv) list) list \<Rightarrow>
   (string \<times> real list) list \<times> (string \<times> real list) list \<times> resolver \<Rightarrow>
   error + ((string \<times> real list) list \<times> (string \<times> real list) list \<times> resolver)"
where
  "plot_ssim_loop to_db video_duration lookup [] st = Inr st"
| "plot_ssim_loop to_db video_duration lookup ((session, ds) # d)
     (ssim_by_cc, ssim_var_by_cc, rs) =
     (case retrieve_expt_config lookup (session_expt_id session) rs of
        (Inl e, rs') \<Rightarrow> Inl e
      | (Inr expt_config, rs') \<Rightarrow>
          (let cc = cfg_cc expt_config;
               (by_cc, var_by_cc) =
                 (if map_of ssim_by_cc cc = None
                  then (AList.update cc [] ssim_by_cc, AList.update cc [] ssim_var_by_cc)
                  else (ssim_by_cc, ssim_var_by_cc));
               (ssims, vars) =
                 plot_ssim_session to_db video_duration ds ds
                   (series by_cc cc, series var_by_cc cc)
           in plot_ssim_loop to_db video_duration lookup d
                (AList.update cc ssims by_cc, AList.update cc vars var_by_cc, rs')))"

definition plot_ssim ::
  "(real \<Rightarrow> real) \<Rightarrow> int \<Rightarrow> (string \<Rightarrow> expt_config option) \<Rightarrow>
   (session \<times> (int \<times> dsv) list) list \<Rightarrow> resolver \<Rightarrow>
   error + ((string \<times> real list) list \<times> (string \<times> real list) list \<times> resolver)"
where
  "plot_ssim to_db video_duration lookup d rs =
     plot_ssim_loop to_db video_duration lookup d ([], [], rs)"

text \<open>The samples with an SSIM index of exactly 1 taken out of the input of \<open>plot_ssim\<close>.\<close>

definition not_perfect :: "int \<times> dsv \<Rightarrow> bool" where
  "not_perfect e = (dsv_ssim_index (snd e) \<noteq> 1)"

definition drop_perfect ::
  "(session \<times> (int \<times> dsv) list) list \<Rightarrow> (session \<times> (int \<times> dsv) list) list"
where
  "drop_perfect d = map (\<lambda>(session, ds). (session, filter not_perfect ds)) d"

text \<open>The same for the points of \<open>video_acked\<close>.\<close>

definition drop_perfect_pts :: "video_acked_pt list \<Rightarrow> video_acked_pt list" where
  "drop_perfect_pts pts = filter (\<lambda>pt. pt_ssim_index pt \<noteq> Some 1) pts"






section \<open>Example data\<close>

text \<open>
  A metadata store with two experiments, a resolver with an empty cache, and a
  \<open>get_abr_cc\<close> that pairs the two algorithms; used for the examples below.
\<close>

definition example_lookup :: "string \<Rightarrow> expt_config option" where
  "example_lookup i =
     (if i = ''1'' then Some \<lparr>cfg_id = ''1'', cfg_cc = ''bbr'', cfg_abr = Some ''puffer''\<rparr>
      else if i = ''2'' then Some \<lparr>cfg_id = ''2'', cfg_cc = ''cubic'', cfg_abr = Some ''puffer''\<rparr>
      else None)"

definition fresh_resolver :: resolver where
  "fresh_resolver = \<lparr>cache = Map.empty, lookups = []\<rparr>"

definition example_get_abr_cc :: "expt_config \<Rightarrow> string option \<times> string" where
  "example_get_abr_cc c = (cfg_abr c, cfg_cc c)"

definition video_pt :: "string \<Rightarrow> real option \<Rightarrow> video_acked_pt" where
  "video_pt i v = \<lparr>pt_expt_id = i, pt_ssim_index = v\<rparr>"

section \<open>Buffer stream reconstruction\<close>


datatype indicator = Playing | Rebuffering


datatype session_state = NO_DATA | PLAYING | REBUFFERING



definition state_of :: "indicator \<Rightarrow> session_state" where
  "state_of i = (case i of Playing \<Rightarrow> PLAYING | Rebuffering \<Rightarrow> REBUFFERING)"













section \<open>Properties of the resolver\<close>

lemma retrieve_hit:
  "cache rs i = Some c \<Longrightarrow> retrieve_expt_config lookup i rs = (Inr c, rs)"
  by (simp add: retrieve_expt_config_def)

lemma retrieve_caches:
  "retrieve_expt_config lookup i rs = (Inr c, rs') \<Longrightarrow> cache rs' i = Some c"
  by (auto simp: retrieve_expt_config_def split: option.splits)

lemma retrieve_keeps:
  "cache rs j = Some c \<Longrightarrow> cache (snd (retrieve_expt_config lookup i rs)) j = Some c"
  by (auto simp: retrieve_expt_config_def split: option.splits)

lemma resolve_all_keeps:
  "cache rs j = Some c \<Longrightarrow> cache (resolve_all lookup is rs) j = Some c"
  by (induction "is" arbitrary: rs) (auto intro: retrieve_keeps)

lemma retrieve_resolved:
  "resolved lookup (snd (retrieve_expt_config lookup i rs)) = resolved lookup rs"
  by (auto simp: resolved_def retrieve_expt_config_def fun_eq_iff split: option.splits)

lemma retrieve_result:
  "fst (retrieve_expt_config lookup i rs) =
     (case resolved lookup rs i of None \<Rightarrow> Inl (ConfigResolutionError i) | Some c \<Rightarrow> Inr c)"
  by (auto simp: resolved_def retrieve_expt_config_def split: option.splits)

text \<open>
  Claim C6. Once an experiment id has been resolved to a configuration, resolving it
  again later in the run (after any further resolutions \<open>js\<close>, possibly none) returns
  the same configuration and leaves the resolver as it was: the cache is unchanged and
  the log of lookups against the external store has not grown.
\<close>

theorem resolve_again_is_cache_hit:
  assumes "retrieve_expt_config lookup i rs = (Inr c, rs1)"
  shows "retrieve_expt_config lookup i (resolve_all lookup js rs1)
           = (Inr c, resolve_all lookup js rs1)"
  using assms by (intro retrieve_hit resolve_all_keeps retrieve_caches)

theorem resolve_again_is_cache_hit_witness:
  "retrieve_expt_config
      (\<lambda>i. if i = ''7'' then Some \<lparr>cfg_id = ''7'', cfg_cc = ''bbr'', cfg_abr = Some ''puffer''\<rparr>
           else None)
      ''7'' \<lparr>cache = Map.empty, lookups = []\<rparr>
    = (Inr \<lparr>cfg_id = ''7'', cfg_cc = ''bbr'', cfg_abr = Some ''puffer''\<rparr>,
       \<lparr>cache = [''7'' \<mapsto> \<lparr>cfg_id = ''7'', cfg_cc = ''bbr'', cfg_abr = Some ''puffer''\<rparr>],
          lookups = [''7'']\<rparr>)
   \<and> retrieve_expt_config
      (\<lambda>i. if i = ''7'' then Some \<lparr>cfg_id = ''7'', cfg_cc = ''bbr'', cfg_abr = Some ''puffer''\<rparr>
           else None)
      ''7''
      \<lparr>cache = [''7'' \<mapsto> \<lparr>cfg_id = ''7'', cfg_cc = ''bbr'', cfg_abr = Some ''puffer''\<rparr>],
         lookups = [''7'', ''8'']\<rparr>
    = (Inr \<lparr>cfg_id = ''7'', cfg_cc = ''bbr'', cfg_abr = Some ''puffer''\<rparr>,
       \<lparr>cache = [''7'' \<mapsto> \<lparr>cfg_id = ''7'', cfg_cc = ''bbr'', cfg_abr = Some ''puffer''\<rparr>],
          lookups = [''7'', ''8'']\<rparr>)"
proof -
  let ?c = "\<lparr>cfg_id = ''7'', cfg_cc = ''bbr'', cfg_abr = Some ''puffer''\<rparr>"
  let ?L = "\<lambda>i. if i = ''7'' then Some ?c else None"
  have h: "retrieve_expt_config ?L ''7'' \<lparr>cache = Map.empty, lookups = []\<rparr>
             = (Inr ?c, \<lparr>cache = [''7'' \<mapsto> ?c], lookups = [''7'']\<rparr>)"
    by (simp add: retrieve_expt_config_def)
  have r: "resolve_all ?L [''8''] \<lparr>cache = [''7'' \<mapsto> ?c], lookups = [''7'']\<rparr>
             = \<lparr>cache = [''7'' \<mapsto> ?c], lookups = [''7'', ''8'']\<rparr>"
    by (simp add: retrieve_expt_config_def)
  from resolve_again_is_cache_hit [OF h, of "[''8'']"] h r show ?thesis by simp
qed

section \<open>Properties of the SSIM accumulation\<close>

lemma sum_count_update:
  "sum_count (AList.update a p d) k = (if k = a then p else sum_count d k)"
  by (simp add: sum_count_def update_conv')

lemma samples_of_Nil [simp]: "samples_of lookup rs g [] k = []"
  by (simp add: samples_of_def)

lemma samples_of_Cons:
  "samples_of lookup rs g (pt # pts) k =
     (if scheme_of lookup rs g pt = Some k
      then (case get_ssim_index pt of None \<Rightarrow> [] | Some v \<Rightarrow> [v]) else [])
     @ samples_of lookup rs g pts k"
  by (simp add: samples_of_def split: option.splits)

lemma scheme_of_cong:
  "resolved lookup rs' = resolved lookup rs \<Longrightarrow> scheme_of lookup rs' g = scheme_of lookup rs g"
  by (simp add: scheme_of_def fun_eq_iff)

lemma samples_of_cong:
  "resolved lookup rs' = resolved lookup rs \<Longrightarrow> samples_of lookup rs' g = samples_of lookup rs g"
  using scheme_of_cong [of lookup rs' rs g] by (simp add: samples_of_def fun_eq_iff)

lemma do_collect_ssim_Cons:
  "do_collect_ssim lookup g (pt # pts) (d, rs) =
     (case resolved lookup rs (pt_expt_id pt) of
        None \<Rightarrow> Inl (ConfigResolutionError (pt_expt_id pt))
      | Some c \<Rightarrow>
          do_collect_ssim lookup g pts
            (let d1 = (if map_of d (g c) = None then AList.update (g c) (0, 0) d else d)
             in (case get_ssim_index pt of
                   None \<Rightarrow> d1
                 | Some v \<Rightarrow> AList.update (g c) (fst (sum_count d1 (g c)) + v, snd (sum_count d1 (g c)) + 1) d1),
             snd (retrieve_expt_config lookup (pt_expt_id pt) rs)))"
proof -
  obtain r rs1 where r: "retrieve_expt_config lookup (pt_expt_id pt) rs = (r, rs1)"
    by (cases "retrieve_expt_config lookup (pt_expt_id pt) rs")
  from retrieve_result [of lookup "pt_expt_id pt" rs] r
  have "r = (case resolved lookup rs (pt_expt_id pt) of
               None \<Rightarrow> Inl (ConfigResolutionError (pt_expt_id pt)) | Some c \<Rightarrow> Inr c)"
    by simp
  with r show ?thesis
    by (auto simp: Let_def sum_count_def update_conv' split: option.splits)
qed

lemma do_collect_ssim_resolved:
  "do_collect_ssim lookup g pts (d, rs) = Inr (d', rs') \<Longrightarrow>
     resolved lookup rs' = resolved lookup rs"
proof (induction pts arbitrary: d rs)
  case Nil
  then show ?case by simp
next
  case (Cons pt pts)
  from Cons.prems show ?case
    by (auto simp only: do_collect_ssim_Cons retrieve_resolved split: option.splits
             dest!: Cons.IH)
qed

lemma do_collect_ssim_sum_count:
  "do_collect_ssim lookup g pts (d, rs) = Inr (d', rs') \<Longrightarrow>
     sum_count d' k =
       (fst (sum_count d k) + sum_list (samples_of lookup rs g pts k),
        snd (sum_count d k) + length (samples_of lookup rs g pts k))"
proof (induction pts arbitrary: d rs)
  case Nil
  then show ?case by simp
next
  case (Cons pt pts)
  let ?rs1 = "snd (retrieve_expt_config lookup (pt_expt_id pt) rs)"
  have rs1: "samples_of lookup ?rs1 g = samples_of lookup rs g"
    by (rule samples_of_cong) (rule retrieve_resolved)
  from Cons.prems obtain c where c: "resolved lookup rs (pt_expt_id pt) = Some c"
    by (auto simp only: do_collect_ssim_Cons split: option.splits)
  have sch: "scheme_of lookup rs g pt = Some (g c)"
    by (simp add: scheme_of_def c)
  from Cons.prems c obtain d2 where
    d2: "do_collect_ssim lookup g pts (d2, ?rs1) = Inr (d', rs')"
    and d2_def: "d2 = (let d1 = (if map_of d (g c) = None then AList.update (g c) (0, 0) d else d)
             in (case get_ssim_index pt of
                   None \<Rightarrow> d1
                 | Some v \<Rightarrow> AList.update (g c) (fst (sum_count d1 (g c)) + v, snd (sum_count d1 (g c)) + 1) d1))"
    by (simp only: do_collect_ssim_Cons option.case)
  have step: "sum_count d2 k =
      (if k = g c then (case get_ssim_index pt of
           None \<Rightarrow> sum_count d k
         | Some v \<Rightarrow> (fst (sum_count d k) + v, snd (sum_count d k) + 1))
       else sum_count d k)"
    by (auto simp: d2_def Let_def sum_count_update split: option.splits)
       (auto simp: sum_count_def)
  from Cons.IH [OF d2] step sch show ?case
    by (auto simp: rs1 samples_of_Cons split: option.splits)
qed

lemma do_collect_ssim_keys:
  "do_collect_ssim lookup g pts (d, rs) = Inr (d', rs') \<Longrightarrow>
     fst ` set d' = fst ` set d \<union> {k. \<exists>pt\<in>set pts. scheme_of lookup rs g pt = Some k}"
proof (induction pts arbitrary: d rs)
  case Nil
  then show ?case by simp
next
  case (Cons pt pts)
  let ?rs1 = "snd (retrieve_expt_config lookup (pt_expt_id pt) rs)"
  have rs1: "scheme_of lookup ?rs1 g = scheme_of lookup rs g"
    by (rule scheme_of_cong) (rule retrieve_resolved)
  from Cons.prems obtain c where c: "resolved lookup rs (pt_expt_id pt) = Some c"
    by (auto simp only: do_collect_ssim_Cons split: option.splits)
  have sch: "scheme_of lookup rs g pt = Some (g c)"
    by (simp add: scheme_of_def c)
  from Cons.prems c obtain d2 where
    d2: "do_collect_ssim lookup g pts (d2, ?rs1) = Inr (d', rs')"
    and d2_def: "d2 = (let d1 = (if map_of d (g c) = None then AList.update (g c) (0, 0) d else d)
             in (case get_ssim_index pt of
                   None \<Rightarrow> d1
                 | Some v \<Rightarrow> AList.update (g c) (fst (sum_count d1 (g c)) + v, snd (sum_count d1 (g c)) + 1) d1))"
    by (simp only: do_collect_ssim_Cons option.case)
  have step: "fst ` set d2 = insert (g c) (fst ` set d)"
    by (auto simp: d2_def Let_def dom_update map_of_eq_None_iff split: option.splits)
  have "fst ` set d' = insert (g c) (fst ` set d) \<union>
          {k. \<exists>pt\<in>set pts. scheme_of lookup rs g pt = Some k}"
    using Cons.IH [OF d2] by (simp only: step rs1)
  also have "\<dots> = fst ` set d \<union> {k. \<exists>pt\<in>set (pt # pts). scheme_of lookup rs g pt = Some k}"
    using sch by auto
  finally show ?case .
qed

lemma do_collect_ssim_distinct:
  "do_collect_ssim lookup g pts (d, rs) = Inr (d', rs') \<Longrightarrow> distinct (map fst d) \<Longrightarrow>
     distinct (map fst d')"
proof (induction pts arbitrary: d rs)
  case Nil
  then show ?case by simp
next
  case (Cons pt pts)
  let ?rs1 = "snd (retrieve_expt_config lookup (pt_expt_id pt) rs)"
  from Cons.prems obtain c where c: "resolved lookup rs (pt_expt_id pt) = Some c"
    by (auto simp only: do_collect_ssim_Cons split: option.splits)
  from Cons.prems c obtain d2 where
    d2: "do_collect_ssim lookup g pts (d2, ?rs1) = Inr (d', rs')"
    and d2_def: "d2 = (let d1 = (if map_of d (g c) = None then AList.update (g c) (0, 0) d else d)
             in (case get_ssim_index pt of
                   None \<Rightarrow> d1
                 | Some v \<Rightarrow> AList.update (g c) (fst (sum_count d1 (g c)) + v, snd (sum_count d1 (g c)) + 1) d1))"
    by (simp only: do_collect_ssim_Cons option.case)
  have "distinct (map fst d2)"
    using Cons.prems(2) by (auto simp: d2_def Let_def distinct_update split: option.splits)
  with Cons.IH [OF d2] show ?case .
qed

lemma do_collect_ssim_succeeds:
  "(\<forall>pt\<in>set pts. resolved lookup rs (pt_expt_id pt) \<noteq> None) \<longleftrightarrow>
     (\<exists>d' rs'. do_collect_ssim lookup g pts (d, rs) = Inr (d', rs'))"
proof (induction pts arbitrary: d rs)
  case Nil
  then show ?case by simp
next
  case (Cons pt pts)
  show ?case
  proof (cases "resolved lookup rs (pt_expt_id pt)")
    case None
    then show ?thesis by (simp add: do_collect_ssim_Cons del: do_collect_ssim.simps)
  next
    case (Some c)
    show ?thesis
      by (simp add: do_collect_ssim_Cons Some Cons.IH [symmetric] retrieve_resolved
               del: do_collect_ssim.simps)
  qed
qed

lemma do_collect_ssim_append:
  "do_collect_ssim lookup g (xs @ ys) st =
     (case do_collect_ssim lookup g xs st of
        Inl e \<Rightarrow> Inl e | Inr st' \<Rightarrow> do_collect_ssim lookup g ys st')"
proof (induction xs arbitrary: st)
  case Nil
  then show ?case by (cases st) simp
next
  case (Cons pt xs)
  obtain d rs where st: "st = (d, rs)" by (cases st)
  show ?case
    unfolding st append_Cons do_collect_ssim_Cons
    by (simp add: Cons.IH split: option.splits)
qed

lemma collect_ssim_windows_concat:
  "collect_ssim_windows lookup g pages st = do_collect_ssim lookup g (concat pages) st"
proof (induction pages arbitrary: st)
  case Nil
  then show ?case by (cases st) simp
next
  case (Cons page pages)
  then show ?case by (simp add: do_collect_ssim_append split: sum.splits)
qed

lemma map_of_sum_count:
  "map_of d k = (if k \<in> fst ` set d then Some (sum_count d k) else None)"
  by (auto simp: sum_count_def map_of_eq_None_iff split: option.splits)

lemma samples_of_mset:
  "mset xs = mset ys \<Longrightarrow> mset (samples_of lookup rs g xs k) = mset (samples_of lookup rs g ys k)"
proof -
  have "mset (map f (filter P xs)) = mset (map f (filter P ys))"
    if "mset xs = mset ys" for f :: "video_acked_pt \<Rightarrow> real" and P xs ys
    using that by simp
  then show "mset xs = mset ys \<Longrightarrow> ?thesis"
    unfolding samples_of_def map_filter_def by blast
qed

lemma samples_of_perm_sum:
  assumes "mset xs = mset ys"
  shows "sum_list (samples_of lookup rs g xs k) = sum_list (samples_of lookup rs g ys k)"
    and "length (samples_of lookup rs g xs k) = length (samples_of lookup rs g ys k)"
proof -
  show "sum_list (samples_of lookup rs g xs k) = sum_list (samples_of lookup rs g ys k)"
    using samples_of_mset [OF assms, of lookup rs g k] by (metis sum_mset_sum_list)
  show "length (samples_of lookup rs g xs k) = length (samples_of lookup rs g ys k)"
    using samples_of_mset [OF assms, of lookup rs g k] by (metis size_mset)
qed

section \<open>Properties of the averaging loop and of the reporter\<close>

lemma average_ssim_map_of:
  "map_of (fst (average_ssim to_db d)) k =
     map_option (\<lambda>(s, c). if c = 0 then SumCount s c else AvgDb (to_db (s / real c)))
       (map_of d k)"
  by (induction d) (auto simp: split_beta)

lemma average_ssim_warnings:
  "set (snd (average_ssim to_db d)) = {k. \<exists>s. (k, s, 0) \<in> set d}"
  by (induction d) (auto simp: split_beta split: if_splits)

lemma average_ssim_keys:
  "map fst (fst (average_ssim to_db d)) = map fst d"
  by (induction d) (auto simp: split_beta)

lemma plot_ssim_rebuffer_ok:
  "(\<forall>k\<in>fst ` set ssim. map_of rebuffer k \<noteq> None) \<Longrightarrow>
     \<exists>points. plot_ssim_rebuffer ssim rebuffer = Inr points \<and>
       map (\<lambda>p. (sp_key p, sp_y p)) points = ssim"
  by (induction ssim) (auto simp: Let_def)

lemma plot_ssim_rebuffer_exit:
  "plot_ssim_rebuffer ssim rebuffer = Inl e \<Longrightarrow>
     \<exists>k \<in> fst ` set ssim. map_of rebuffer k = None \<and> e = NotInRebuffer k"
  by (induction ssim) (auto simp: Let_def split: option.splits sum.splits)

lemma plot_ssim_rebuffer_points:
  "plot_ssim_rebuffer ssim rebuffer = Inr points \<Longrightarrow>
     map (\<lambda>p. (sp_key p, sp_y p)) points = ssim \<and> (\<forall>k\<in>fst ` set ssim. map_of rebuffer k \<noteq> None)"
  by (induction ssim arbitrary: points) (auto simp: Let_def split: option.splits sum.splits)

lemma collect_ssim_Inr:
  "collect_ssim_windows lookup g pages ([], rs) = Inr (d, rs') \<Longrightarrow>
     collect_ssim lookup g to_db pages rs
       = Inr (fst (average_ssim to_db d), snd (average_ssim to_db d), rs')"
  by (simp add: collect_ssim_def split_beta)

lemma collect_ssim_Inl:
  "collect_ssim_windows lookup g pages ([], rs) = Inl e \<Longrightarrow>
     collect_ssim lookup g to_db pages rs = Inl e"
  by (simp add: collect_ssim_def)

lemma collect_ssim_InrD:
  "collect_ssim lookup g to_db pages rs = Inr (d', w, rs') \<Longrightarrow>
     \<exists>d. collect_ssim_windows lookup g pages ([], rs) = Inr (d, rs') \<and>
         d' = fst (average_ssim to_db d) \<and> w = snd (average_ssim to_db d)"
  by (auto simp: collect_ssim_def split_beta split: sum.splits)

lemma accumulated_pair:
  assumes "collect_ssim_windows lookup g pages ([], rs) = Inr (d, rs')"
  shows "sum_count d k = (sum_list (samples_of lookup rs g (concat pages) k),
                          length (samples_of lookup rs g (concat pages) k))"
  using do_collect_ssim_sum_count [of lookup g "concat pages" "[]" rs d rs' k] assms
  by (simp add: collect_ssim_windows_concat sum_count_def)

lemma accumulated_keys:
  assumes "collect_ssim_windows lookup g pages ([], rs) = Inr (d, rs')"
  shows "fst ` set d = {k. \<exists>pt\<in>set (concat pages). scheme_of lookup rs g pt = Some k}"
  using do_collect_ssim_keys [of lookup g "concat pages" "[]" rs d rs'] assms
  by (simp add: collect_ssim_windows_concat)

lemma accumulated_perm:
  assumes m: "mset (concat pages1) = mset (concat pages2)"
    and r1: "collect_ssim_windows lookup g pages1 ([], rs) = Inr (d1, rs1)"
    and r2: "collect_ssim_windows lookup g pages2 ([], rs) = Inr (d2, rs2)"
  shows "map_of d1 = map_of d2"
proof
  fix k
  have s: "set (concat pages1) = set (concat pages2)"
    using m by (rule mset_eq_setD)
  have keys: "fst ` set d1 = fst ` set d2"
    by (simp only: accumulated_keys [OF r1] accumulated_keys [OF r2] s)
  have "sum_count d1 k = sum_count d2 k"
    by (simp only: accumulated_pair [OF r1] accumulated_pair [OF r2]
          samples_of_perm_sum [OF m])
  with keys show "map_of d1 k = map_of d2 k"
    by (simp only: map_of_sum_count [of d1 k] map_of_sum_count [of d2 k])
qed

text \<open>
  With exact sums, two runs over the same multiset of \<open>video_acked\<close> points, in any order
  and with any split into windows, either both raise, or both succeed with dictionaries
  that bind the same keys to the same \<open>(sum, count)\<close> pairs and, after the averaging loop,
  to the same entries.
\<close>

lemma exact_accumulation_order_independent:
  assumes "mset (concat pages1) = mset (concat pages2)"
  shows "(\<exists>e1 e2. collect_ssim lookup g to_db pages1 rs = Inl e1 \<and>
                  collect_ssim lookup g to_db pages2 rs = Inl e2)
       \<or> (\<exists>d1 rs1 d2 rs2.
            collect_ssim_windows lookup g pages1 ([], rs) = Inr (d1, rs1) \<and>
            collect_ssim_windows lookup g pages2 ([], rs) = Inr (d2, rs2) \<and>
            map_of d1 = map_of d2 \<and>
            (\<exists>a1 w1 a2 w2.
               collect_ssim lookup g to_db pages1 rs = Inr (a1, w1, rs1) \<and>
               collect_ssim lookup g to_db pages2 rs = Inr (a2, w2, rs2) \<and>
               map_of a1 = map_of a2))"
proof -
  let ?run1 = "collect_ssim_windows lookup g pages1 ([], rs)"
  let ?run2 = "collect_ssim_windows lookup g pages2 ([], rs)"
  have s: "set (concat pages1) = set (concat pages2)"
    using assms by (rule mset_eq_setD)
  have iff: "(\<exists>d' rs'. ?run1 = Inr (d', rs')) \<longleftrightarrow> (\<exists>d' rs'. ?run2 = Inr (d', rs'))"
    by (simp only: collect_ssim_windows_concat do_collect_ssim_succeeds [symmetric] s)
  show ?thesis
  proof (cases ?run1)
    case (Inr st1)
    obtain d1 rs1 where r1: "?run1 = Inr (d1, rs1)"
      using Inr by (cases st1) simp
    with iff obtain d2 rs2 where r2: "?run2 = Inr (d2, rs2)"
      by blast
    have eq: "map_of d1 = map_of d2"
      using assms r1 r2 by (rule accumulated_perm)
    have "map_of (fst (average_ssim to_db d1)) = map_of (fst (average_ssim to_db d2))"
      by (rule ext) (simp only: average_ssim_map_of eq)
    with r1 r2 eq collect_ssim_Inr [OF r1, of to_db] collect_ssim_Inr [OF r2, of to_db]
    show ?thesis by blast
  next
    case (Inl e1)
    with iff obtain e2 where r2: "?run2 = Inl e2"
      by (cases ?run2) auto
    from collect_ssim_Inl [OF Inl, of to_db] collect_ssim_Inl [OF r2, of to_db]
    show ?thesis by blast
  qed
qed

lemma accumulated_map_of:
  assumes "collect_ssim_windows lookup g pages ([], rs) = Inr (d, rs')"
    and "map_of d k = Some (s, c)"
  shows "s = sum_list (samples_of lookup rs g (concat pages) k)"
    and "c = length (samples_of lookup rs g (concat pages) k)"
  using accumulated_pair [OF assms(1), of k] assms(2) by (simp_all add: sum_count_def)

text \<open>
  Claim C9. A key whose count is zero after all windows have been processed is named in
  a warning and stays in the returned dictionary, bound to the raw pair \<open>[0.0, 0]\<close>. The
  dictionary is therefore not empty, the emptiness test of \<open>main\<close> lets it through
  whenever the rebuffer dictionary is not empty, and a figure that gets saved contains a
  point for the key whose \<open>y\<close> is that raw pair.
\<close>

theorem zero_count_key_stays_raw:
  assumes run: "collect_ssim_windows lookup g pages ([], rs) = Inr (d, rs')"
    and zero: "map_of d k = Some (s, 0)"
  shows "\<exists>d' w. collect_ssim lookup g to_db pages rs = Inr (d', w, rs') \<and>
           k \<in> set w \<and> map_of d' k = Some (SumCount 0 0) \<and> d' \<noteq> [] \<and>
           (\<forall>rebuffer. rebuffer \<noteq> [] \<longrightarrow>
              report d' rebuffer = plot_ssim_rebuffer d' rebuffer) \<and>
           (\<forall>rebuffer points. report d' rebuffer = Inr points \<longrightarrow>
              (\<exists>p\<in>set points. sp_key p = k \<and> sp_y p = SumCount 0 0))"
proof -
  let ?d' = "fst (average_ssim to_db d)"
  let ?w = "snd (average_ssim to_db d)"
  have "samples_of lookup rs g (concat pages) k = []"
    using accumulated_map_of(2) [OF run zero] by simp
  then have s0: "s = 0"
    using accumulated_map_of(1) [OF run zero] by simp
  have r: "collect_ssim lookup g to_db pages rs = Inr (?d', ?w, rs')"
    using run by (rule collect_ssim_Inr)
  have m: "map_of ?d' k = Some (SumCount 0 0)"
    by (simp add: average_ssim_map_of zero s0)
  have "(k, s, 0) \<in> set d"
    using zero by (rule map_of_SomeD)
  then have w: "k \<in> set ?w"
    by (auto simp: average_ssim_warnings)
  have ne: "?d' \<noteq> []"
    using m by auto
  have rep: "report ?d' rebuffer = plot_ssim_rebuffer ?d' rebuffer" if "rebuffer \<noteq> []"
    for rebuffer :: "('a \<times> rebuffer_rec) list"
    using that ne by (simp add: report_def)
  have pts: "\<exists>p\<in>set points. sp_key p = k \<and> sp_y p = SumCount 0 0"
    if "report ?d' rebuffer = Inr points"
    for rebuffer :: "('a \<times> rebuffer_rec) list" and points
  proof -
    from that have "plot_ssim_rebuffer ?d' rebuffer = Inr points"
      by (simp add: report_def split: if_splits)
    then have "map (\<lambda>p. (sp_key p, sp_y p)) points = ?d'"
      using plot_ssim_rebuffer_points by blast
    moreover have "(k, SumCount 0 0) \<in> set ?d'"
      using m by (rule map_of_SomeD)
    ultimately have "(k, SumCount 0 0) \<in> (\<lambda>p. (sp_key p, sp_y p)) ` set points"
      by (metis set_map)
    then show ?thesis by auto
  qed
  from r w m ne rep pts show ?thesis by blast
qed

lemma average_of_samples:
  assumes "collect_ssim lookup g to_db pages rs = Inr (d', w, rs')"
    and "samples_of lookup rs g (concat pages) k \<noteq> []"
  shows "map_of d' k =
           Some (AvgDb (to_db (sum_list (samples_of lookup rs g (concat pages) k)
                               / real (length (samples_of lookup rs g (concat pages) k)))))"
proof -
  let ?xs = "samples_of lookup rs g (concat pages) k"
  from assms(1) obtain d where
    run: "collect_ssim_windows lookup g pages ([], rs) = Inr (d, rs')"
    and d': "d' = fst (average_ssim to_db d)"
    using collect_ssim_InrD by blast
  have sc: "sum_count d k = (sum_list ?xs, length ?xs)"
    using run by (rule accumulated_pair)
  have "length ?xs \<noteq> 0"
    using assms(2) by simp
  with sc have "map_of d k = Some (sum_list ?xs, length ?xs)"
    by (auto simp: sum_count_def split: option.splits)
  then show ?thesis
    using assms(2) by (simp add: d' average_ssim_map_of)
qed

section \<open>Properties of the SSIM conversion\<close>

lemma log10_pow: "log 10 (1 / 10 ^ n) = - real n"
proof -
  have "log 10 (1 / 10 ^ n) = - log 10 ((10 :: real) ^ n)"
    by (rule log_recip)
  also have "log 10 ((10 :: real) ^ n) = real n"
    by (rule log_pow_cancel) simp_all
  finally show ?thesis .
qed

lemma db_0: "ssim_index_to_db 0 = Some 0"
  by (simp add: ssim_index_to_db_def)

lemma db_099: "ssim_index_to_db 0.99 = Some 20"
proof -
  have "(1 - 0.99 :: real) = 1 / 10 ^ 2" by simp
  then have "log 10 (1 - 0.99 :: real) = - 2"
    using log10_pow [of 2] by (simp only: of_nat_numeral)
  then show ?thesis by (simp add: ssim_index_to_db_def)
qed

lemma db_0999: "ssim_index_to_db 0.999 = Some 30"
proof -
  have "(1 - 0.999 :: real) = 1 / 10 ^ 3" by simp
  then have "log 10 (1 - 0.999 :: real) = - 3"
    using log10_pow [of 3] by (simp only: of_nat_numeral)
  then show ?thesis by (simp add: ssim_index_to_db_def)
qed

lemma db_mean_differs: "ssim_index_to_db 0.495 \<noteq> Some ((0 + 20) / 2)"
proof
  assume "ssim_index_to_db 0.495 = Some ((0 + 20) / 2)"
  then have "log 10 (1 - 0.495) = (- 1 :: real)"
    by (simp add: ssim_index_to_db_def)
  moreover have "log 10 (1 / 10 ^ 1) = (- 1 :: real)"
    using log10_pow [of 1] by simp
  ultimately have "log 10 (1 - 0.495) = log 10 (1 / 10 ^ 1 :: real)"
    by simp
  then have "10 powr log 10 (1 - 0.495 :: real) = 10 powr log 10 (1 / 10 ^ 1 :: real)"
    by (rule arg_cong)
  moreover have "10 powr log 10 (1 - 0.495 :: real) = 1 - 0.495"
    by (rule powr_log_cancel) simp_all
  moreover have "10 powr log 10 (1 / 10 ^ 1 :: real) = 1 / 10 ^ 1"
    by (rule powr_log_cancel) simp_all
  ultimately have "(1 - 0.495 :: real) = 1 / 10 ^ 1"
    by (simp only:)
  then show False by simp
qed

lemma db_mono:
  assumes "0 \<le> a" "a < b" "b < 1"
  shows "\<exists>x y. ssim_index_to_db a = Some x \<and> ssim_index_to_db b = Some y \<and> x < y"
proof -
  have "log 10 (1 - b) < log 10 (1 - a)"
    using assms by simp
  then show ?thesis
    using assms by (simp add: ssim_index_to_db_def)
qed

text \<open>
  Claim C8. On \<open>[0, 1)\<close> the conversion is \<open>-10 * log10(1 - index)\<close> and strictly increasing,
  it maps \<open>0.999\<close> to \<open>30\<close>, and it is undefined at \<open>1\<close>.
\<close>

theorem ssim_index_to_db_conversion:
  "(\<forall>i. 0 \<le> i \<and> i < 1 \<longrightarrow> ssim_index_to_db i = Some (- 10 * log 10 (1 - i))) \<and>
   (\<forall>a b. 0 \<le> a \<and> a < b \<and> b < 1 \<longrightarrow>
      (\<exists>x y. ssim_index_to_db a = Some x \<and> ssim_index_to_db b = Some y \<and> x < y)) \<and>
   ssim_index_to_db 0.999 = Some 30 \<and>
   ssim_index_to_db 1 = None"
proof (intro conjI allI impI)
  fix i :: real
  assume "0 \<le> i \<and> i < 1"
  then show "ssim_index_to_db i = Some (- 10 * log 10 (1 - i))"
    by (simp add: ssim_index_to_db_def)
next
  fix a b :: real
  assume "0 \<le> a \<and> a < b \<and> b < 1"
  then show "\<exists>x y. ssim_index_to_db a = Some x \<and> ssim_index_to_db b = Some y \<and> x < y"
    using db_mono by blast
next
  show "ssim_index_to_db 0.999 = Some 30" by (rule db_0999)
next
  show "ssim_index_to_db 1 = None" by (simp add: ssim_index_to_db_def)
qed

theorem ssim_index_to_db_conversion_witness:
  "ssim_index_to_db 0.99 = Some (- 10 * log 10 (1 - 0.99)) \<and>
   (\<exists>x y. ssim_index_to_db 0 = Some x \<and> ssim_index_to_db 0.99 = Some y \<and> x < y)"
proof -
  have h1: "(0::real) \<le> 0.99 \<and> (0.99::real) < 1" by simp
  have h2: "(0::real) \<le> 0 \<and> (0::real) < 0.99 \<and> (0.99::real) < 1" by simp
  from ssim_index_to_db_conversion h1 h2 show ?thesis by blast
qed

section \<open>Accumulation in floating point\<close>

text \<open>Where \<open>f64_round\<close> has to look for the double: between two powers of two.\<close>

lemma f64_round_pos:
  assumes "0 < x" and "2 powr (of_int e) \<le> x" and "x < 2 powr (of_int (e + 1))"
    and "- 1022 \<le> e"
  shows "f64_round x
           = of_int (round_half_even (x / 2 powr (of_int (e - 52)))) * 2 powr (of_int (e - 52))"
proof -
  have "\<lfloor>log 2 x\<rfloor> = e"
    using assms(1,2,3) by (subst floor_log_eq_powr_iff) simp_all
  with assms(1,4) show ?thesis
    by (simp add: f64_round_def Let_def max_def)
qed

lemmas f64_eval = round_half_even_def Let_def powr_neg_numeral

lemma f64_01: "f64_round (1 / 10) = 3602879701896397 / 2 ^ 55"
  by (subst f64_round_pos [where e = "- 4"]) (simp_all add: f64_eval)

lemma f64_02: "f64_round (2 / 10) = 3602879701896397 / 2 ^ 54"
  by (subst f64_round_pos [where e = "- 3"]) (simp_all add: f64_eval)

lemma f64_03: "f64_round (3 / 10) = 5404319552844595 / 2 ^ 54"
  by (subst f64_round_pos [where e = "- 2"]) (simp_all add: f64_eval)

lemma f64_add_0_01: "f64_add 0 (3602879701896397 / 2 ^ 55) = 3602879701896397 / 2 ^ 55"
  unfolding f64_add_def
  by (subst f64_round_pos [where e = "- 4"]) (simp_all add: f64_eval)

lemma f64_add_01_02:
  "f64_add (3602879701896397 / 2 ^ 55) (3602879701896397 / 2 ^ 54) = 5404319552844596 / 2 ^ 54"
  unfolding f64_add_def
  by (subst f64_round_pos [where e = "- 2"]) (simp_all add: f64_eval)

lemma f64_add_03_03:
  "f64_add (5404319552844596 / 2 ^ 54) (5404319552844595 / 2 ^ 54) = 5404319552844596 / 2 ^ 53"
  unfolding f64_add_def
  by (subst f64_round_pos [where e = "- 1"]) (simp_all add: f64_eval)

lemma f64_add_0_03: "f64_add 0 (5404319552844595 / 2 ^ 54) = 5404319552844595 / 2 ^ 54"
  unfolding f64_add_def
  by (subst f64_round_pos [where e = "- 2"]) (simp_all add: f64_eval)

lemma f64_add_03_02:
  "f64_add (5404319552844595 / 2 ^ 54) (3602879701896397 / 2 ^ 54) = 1 / 2"
  unfolding f64_add_def
  by (subst f64_round_pos [where e = "- 1"]) (simp_all add: f64_eval)

lemma f64_add_05_01:
  "f64_add (1 / 2) (3602879701896397 / 2 ^ 55) = 5404319552844595 / 2 ^ 53"
  unfolding f64_add_def
  by (subst f64_round_pos [where e = "- 1"]) (simp_all add: f64_eval)

lemma f64_div_a:
  "f64_true_divide (5404319552844596 / 2 ^ 53) 3 = 7205759403792795 / 2 ^ 55"
  unfolding f64_true_divide_def
  by (subst f64_round_pos [where e = "- 3"]) (simp_all add: f64_eval)

lemma f64_div_b:
  "f64_true_divide (5404319552844595 / 2 ^ 53) 3 = 7205759403792793 / 2 ^ 55"
  unfolding f64_true_divide_def
  by (subst f64_round_pos [where e = "- 3"]) (simp_all add: f64_eval)

lemma f64_add_commute: "f64_add a b = f64_add b a"
  by (simp add: f64_add_def add.commute)

lemma do_collect_ssim_with_Cons:
  "do_collect_ssim_with add lookup g (pt # pts) (d, rs) =
     (case resolved lookup rs (pt_expt_id pt) of
        None \<Rightarrow> Inl (ConfigResolutionError (pt_expt_id pt))
      | Some c \<Rightarrow>
          do_collect_ssim_with add lookup g pts
            (let d1 = (if map_of d (g c) = None then AList.update (g c) (0, 0) d else d)
             in (case get_ssim_index pt of
                   None \<Rightarrow> d1
                 | Some v \<Rightarrow> AList.update (g c) (add (fst (sum_count d1 (g c))) v, snd (sum_count d1 (g c)) + 1) d1),
             snd (retrieve_expt_config lookup (pt_expt_id pt) rs)))"
proof -
  obtain r rs1 where r: "retrieve_expt_config lookup (pt_expt_id pt) rs = (r, rs1)"
    by (cases "retrieve_expt_config lookup (pt_expt_id pt) rs")
  from retrieve_result [of lookup "pt_expt_id pt" rs] r
  have "r = (case resolved lookup rs (pt_expt_id pt) of
               None \<Rightarrow> Inl (ConfigResolutionError (pt_expt_id pt)) | Some c \<Rightarrow> Inr c)"
    by simp
  with r show ?thesis
    by (auto simp: Let_def sum_count_def update_conv' split: option.splits)
qed

lemma do_collect_ssim_with_plus:
  "do_collect_ssim_with (+) lookup g pts st = do_collect_ssim lookup g pts st"
proof (induction pts arbitrary: st)
  case Nil
  then show ?case by (cases st) simp
next
  case (Cons pt pts)
  obtain d rs where st: "st = (d, rs)" by (cases st)
  show ?case
    unfolding st do_collect_ssim_with_Cons do_collect_ssim_Cons
    by (simp only: Cons.IH)
qed

lemma collect_ssim_windows_with_plus:
  "collect_ssim_windows_with (+) lookup g pages st = collect_ssim_windows lookup g pages st"
  by (induction pages arbitrary: st) (simp_all add: do_collect_ssim_with_plus split: sum.splits)

lemma do_collect_ssim_with_sum_count:
  "do_collect_ssim_with add lookup g pts (d, rs) = Inr (d', rs') \<Longrightarrow>
     sum_count d' k =
       (fold (\<lambda>v s. add s v) (samples_of lookup rs g pts k) (fst (sum_count d k)),
        snd (sum_count d k) + length (samples_of lookup rs g pts k))"
proof (induction pts arbitrary: d rs)
  case Nil
  then show ?case by simp
next
  case (Cons pt pts)
  let ?rs1 = "snd (retrieve_expt_config lookup (pt_expt_id pt) rs)"
  have rs1: "samples_of lookup ?rs1 g = samples_of lookup rs g"
    by (rule samples_of_cong) (rule retrieve_resolved)
  from Cons.prems obtain c where c: "resolved lookup rs (pt_expt_id pt) = Some c"
    by (auto simp only: do_collect_ssim_with_Cons split: option.splits)
  have sch: "scheme_of lookup rs g pt = Some (g c)"
    by (simp add: scheme_of_def c)
  from Cons.prems c obtain d2 where
    d2: "do_collect_ssim_with add lookup g pts (d2, ?rs1) = Inr (d', rs')"
    and d2_def: "d2 = (let d1 = (if map_of d (g c) = None then AList.update (g c) (0, 0) d else d)
             in (case get_ssim_index pt of
                   None \<Rightarrow> d1
                 | Some v \<Rightarrow> AList.update (g c) (add (fst (sum_count d1 (g c))) v, snd (sum_count d1 (g c)) + 1) d1))"
    by (simp only: do_collect_ssim_with_Cons option.case)
  have step: "sum_count d2 k =
      (if k = g c then (case get_ssim_index pt of
           None \<Rightarrow> sum_count d k
         | Some v \<Rightarrow> (add (fst (sum_count d k)) v, snd (sum_count d k) + 1))
       else sum_count d k)"
    by (auto simp: d2_def Let_def sum_count_update split: option.splits)
       (auto simp: sum_count_def)
  from Cons.IH [OF d2] step sch show ?case
    by (auto simp: rs1 samples_of_Cons split: option.splits)
qed

lemma do_collect_ssim_with_keys:
  "do_collect_ssim_with add lookup g pts (d, rs) = Inr (d', rs') \<Longrightarrow>
     fst ` set d' = fst ` set d \<union> {k. \<exists>pt\<in>set pts. scheme_of lookup rs g pt = Some k}"
proof (induction pts arbitrary: d rs)
  case Nil
  then show ?case by simp
next
  case (Cons pt pts)
  let ?rs1 = "snd (retrieve_expt_config lookup (pt_expt_id pt) rs)"
  have rs1: "scheme_of lookup ?rs1 g = scheme_of lookup rs g"
    by (rule scheme_of_cong) (rule retrieve_resolved)
  from Cons.prems obtain c where c: "resolved lookup rs (pt_expt_id pt) = Some c"
    by (auto simp only: do_collect_ssim_with_Cons split: option.splits)
  have sch: "scheme_of lookup rs g pt = Some (g c)"
    by (simp add: scheme_of_def c)
  from Cons.prems c obtain d2 where
    d2: "do_collect_ssim_with add lookup g pts (d2, ?rs1) = Inr (d', rs')"
    and d2_def: "d2 = (let d1 = (if map_of d (g c) = None then AList.update (g c) (0, 0) d else d)
             in (case get_ssim_index pt of
                   None \<Rightarrow> d1
                 | Some v \<Rightarrow> AList.update (g c) (add (fst (sum_count d1 (g c))) v, snd (sum_count d1 (g c)) + 1) d1))"
    by (simp only: do_collect_ssim_with_Cons option.case)
  have step: "fst ` set d2 = insert (g c) (fst ` set d)"
    by (auto simp: d2_def Let_def dom_update map_of_eq_None_iff split: option.splits)
  have "fst ` set d' = insert (g c) (fst ` set d) \<union>
          {k. \<exists>pt\<in>set pts. scheme_of lookup rs g pt = Some k}"
    using Cons.IH [OF d2] by (simp only: step rs1)
  also have "\<dots> = fst ` set d \<union> {k. \<exists>pt\<in>set (pt # pts). scheme_of lookup rs g pt = Some k}"
    using sch by auto
  finally show ?case .
qed

lemma do_collect_ssim_with_succeeds:
  "(\<forall>pt\<in>set pts. resolved lookup rs (pt_expt_id pt) \<noteq> None) \<longleftrightarrow>
     (\<exists>d' rs'. do_collect_ssim_with add lookup g pts (d, rs) = Inr (d', rs'))"
proof (induction pts arbitrary: d rs)
  case Nil
  then show ?case by simp
next
  case (Cons pt pts)
  show ?case
  proof (cases "resolved lookup rs (pt_expt_id pt)")
    case None
    then show ?thesis by (simp add: do_collect_ssim_with_Cons del: do_collect_ssim_with.simps)
  next
    case (Some c)
    show ?thesis
      by (simp add: do_collect_ssim_with_Cons Some Cons.IH [symmetric] retrieve_resolved
               del: do_collect_ssim_with.simps)
  qed
qed

lemma do_collect_ssim_with_append:
  "do_collect_ssim_with add lookup g (xs @ ys) st =
     (case do_collect_ssim_with add lookup g xs st of
        Inl e \<Rightarrow> Inl e | Inr st' \<Rightarrow> do_collect_ssim_with add lookup g ys st')"
proof (induction xs arbitrary: st)
  case Nil
  then show ?case by (cases st) simp
next
  case (Cons pt xs)
  obtain d rs where st: "st = (d, rs)" by (cases st)
  show ?case
    unfolding st append_Cons do_collect_ssim_with_Cons
    by (simp add: Cons.IH split: option.splits)
qed

lemma collect_ssim_windows_with_concat:
  "collect_ssim_windows_with add lookup g pages st
     = do_collect_ssim_with add lookup g (concat pages) st"
proof (induction pages arbitrary: st)
  case Nil
  then show ?case by (cases st) simp
next
  case (Cons page pages)
  then show ?case by (simp add: do_collect_ssim_with_append split: sum.splits)
qed

lemma map_of_counts_of:
  "map_of (counts_of d) k = map_option snd (map_of d k)"
  by (induction d) (auto simp: counts_of_def)

lemma fold_add_mset:
  assumes rc: "\<And>s a b. add (add s a) b = add (add s b) a"
    and m: "mset xs = mset ys"
  shows "fold (\<lambda>v s. add s v) xs z = fold (\<lambda>v s. add s v) ys z"
proof -
  have "fold (\<lambda>v s. add s v) xs = fold (\<lambda>v s. add s v) ys"
    using m by (rule fold_multiset_equiv [rotated]) (simp add: fun_eq_iff rc)
  then show ?thesis by simp
qed

lemma accumulated_with:
  assumes m: "mset (concat pages1) = mset (concat pages2)"
    and r1: "collect_ssim_windows_with add lookup g pages1 ([], rs) = Inr (d1, rs1)"
    and r2: "collect_ssim_windows_with add lookup g pages2 ([], rs) = Inr (d2, rs2)"
  shows "map_of (counts_of d1) = map_of (counts_of d2)"
    and "(\<forall>s a b. add (add s a) b = add (add s b) a) \<Longrightarrow> map_of d1 = map_of d2"
proof -
  have s: "set (concat pages1) = set (concat pages2)"
    using m by (rule mset_eq_setD)
  have k1: "fst ` set d1 = {k. \<exists>pt\<in>set (concat pages1). scheme_of lookup rs g pt = Some k}"
    using do_collect_ssim_with_keys [of add lookup g "concat pages1" "[]" rs d1 rs1] r1
    by (simp add: collect_ssim_windows_with_concat)
  have k2: "fst ` set d2 = {k. \<exists>pt\<in>set (concat pages2). scheme_of lookup rs g pt = Some k}"
    using do_collect_ssim_with_keys [of add lookup g "concat pages2" "[]" rs d2 rs2] r2
    by (simp add: collect_ssim_windows_with_concat)
  have keys: "fst ` set d1 = fst ` set d2"
    by (simp only: k1 k2 s)
  have p1: "sum_count d1 k = (fold (\<lambda>v s. add s v) (samples_of lookup rs g (concat pages1) k) 0,
                             length (samples_of lookup rs g (concat pages1) k))" for k
    using do_collect_ssim_with_sum_count [of add lookup g "concat pages1" "[]" rs d1 rs1 k] r1
    by (simp add: collect_ssim_windows_with_concat sum_count_def)
  have p2: "sum_count d2 k = (fold (\<lambda>v s. add s v) (samples_of lookup rs g (concat pages2) k) 0,
                             length (samples_of lookup rs g (concat pages2) k))" for k
    using do_collect_ssim_with_sum_count [of add lookup g "concat pages2" "[]" rs d2 rs2 k] r2
    by (simp add: collect_ssim_windows_with_concat sum_count_def)
  show "map_of (counts_of d1) = map_of (counts_of d2)"
  proof
    fix k
    have "snd (sum_count d1 k) = snd (sum_count d2 k)"
      by (simp only: p1 p2 snd_conv samples_of_perm_sum(2) [OF m])
    with keys show "map_of (counts_of d1) k = map_of (counts_of d2) k"
      by (simp add: map_of_counts_of map_of_sum_count [of d1 k] map_of_sum_count [of d2 k])
  qed
  show "map_of d1 = map_of d2" if rc: "\<forall>s a b. add (add s a) b = add (add s b) a"
  proof
    fix k
    have "fold (\<lambda>v s. add s v) (samples_of lookup rs g (concat pages1) k) 0
            = fold (\<lambda>v s. add s v) (samples_of lookup rs g (concat pages2) k) 0"
      using rc samples_of_mset [OF m, of lookup rs g k] by (intro fold_add_mset) simp_all
    then have "sum_count d1 k = sum_count d2 k"
      by (simp only: p1 p2 samples_of_perm_sum(2) [OF m])
    with keys show "map_of d1 k = map_of d2 k"
      by (simp only: map_of_sum_count [of d1 k] map_of_sum_count [of d2 k])
  qed
qed

text \<open>
  Claim C7. Two runs of the accumulation over the same multiset of \<open>video_acked\<close> points,
  in any order and with any split into windows, whatever the addition of the sums is:
  either both raise, or both succeed with dictionaries that have the same keys and the
  same count for every key; the sums, and with them everything computed from the pairs,
  are the same too when the addition gives the same result for the same summands in any
  order (\<open>add (add s a) b = add (add s b) a\<close>). Exact addition is such: with it the run
  is \<open>collect_ssim_windows\<close>, and the two runs bind the same keys to the same
  \<open>(sum, count)\<close> pairs and, after the averaging loop, to the same entries. The addition
  of Python floats is commutative, which is all that can be said of it here: it is not
  associative, and the sums it accumulates depend on the order of the samples.
\<close>

theorem ssim_accumulation_order_independent:
  assumes "mset (concat pages1) = mset (concat pages2)"
  shows "((\<exists>e1 e2. collect_ssim_windows_with add lookup g pages1 ([], rs) = Inl e1 \<and>
                   collect_ssim_windows_with add lookup g pages2 ([], rs) = Inl e2)
        \<or> (\<exists>d1 rs1 d2 rs2.
             collect_ssim_windows_with add lookup g pages1 ([], rs) = Inr (d1, rs1) \<and>
             collect_ssim_windows_with add lookup g pages2 ([], rs) = Inr (d2, rs2) \<and>
             map_of (counts_of d1) = map_of (counts_of d2) \<and>
             ((\<forall>s a b. add (add s a) b = add (add s b) a) \<longrightarrow> map_of d1 = map_of d2)))
       \<and> collect_ssim_windows_with (+) lookup g pages1 ([], rs)
           = collect_ssim_windows lookup g pages1 ([], rs)
       \<and> ((\<exists>e1 e2. collect_ssim lookup g to_db pages1 rs = Inl e1 \<and>
                    collect_ssim lookup g to_db pages2 rs = Inl e2)
          \<or> (\<exists>d1 rs1 d2 rs2.
               collect_ssim_windows lookup g pages1 ([], rs) = Inr (d1, rs1) \<and>
               collect_ssim_windows lookup g pages2 ([], rs) = Inr (d2, rs2) \<and>
               map_of d1 = map_of d2 \<and>
               (\<exists>a1 w1 a2 w2.
                  collect_ssim lookup g to_db pages1 rs = Inr (a1, w1, rs1) \<and>
                  collect_ssim lookup g to_db pages2 rs = Inr (a2, w2, rs2) \<and>
                  map_of a1 = map_of a2)))
       \<and> (\<forall>a b. f64_add a b = f64_add b a)"
proof -
  let ?run1 = "collect_ssim_windows_with add lookup g pages1 ([], rs)"
  let ?run2 = "collect_ssim_windows_with add lookup g pages2 ([], rs)"
  have s: "set (concat pages1) = set (concat pages2)"
    using assms by (rule mset_eq_setD)
  have iff: "(\<exists>d' rs'. ?run1 = Inr (d', rs')) \<longleftrightarrow> (\<exists>d' rs'. ?run2 = Inr (d', rs'))"
    by (simp only: collect_ssim_windows_with_concat do_collect_ssim_with_succeeds [symmetric] s)
  have main: "(\<exists>e1 e2. ?run1 = Inl e1 \<and> ?run2 = Inl e2)
        \<or> (\<exists>d1 rs1 d2 rs2. ?run1 = Inr (d1, rs1) \<and> ?run2 = Inr (d2, rs2) \<and>
             map_of (counts_of d1) = map_of (counts_of d2) \<and>
             ((\<forall>s a b. add (add s a) b = add (add s b) a) \<longrightarrow> map_of d1 = map_of d2))"
  proof (cases ?run1)
    case (Inr st1)
    obtain d1 rs1 where r1: "?run1 = Inr (d1, rs1)"
      using Inr by (cases st1) simp
    with iff obtain d2 rs2 where r2: "?run2 = Inr (d2, rs2)"
      by blast
    from accumulated_with [OF assms r1 r2] r1 r2 show ?thesis
      by blast
  next
    case (Inl e1)
    with iff have "\<not> (\<exists>d' rs'. ?run2 = Inr (d', rs'))"
      by simp
    then obtain e2 where "?run2 = Inl e2"
      by (cases ?run2) auto
    with Inl show ?thesis by blast
  qed
  show ?thesis
    by (intro conjI main collect_ssim_windows_with_plus allI f64_add_commute
          exact_accumulation_order_independent [OF assms])
qed

section \<open>Examples of the SSIM aggregation\<close>

lemmas example_simps = example_lookup_def fresh_resolver_def example_get_abr_cc_def video_pt_def
  retrieve_expt_config_def get_ssim_index_def Let_def

theorem ssim_accumulation_order_independent_witness:
  "mset (concat [[video_pt ''1'' (Some 0.9), video_pt ''2'' (Some 0.5)], [video_pt ''1'' (Some 0.8)]])
     = mset (concat [[video_pt ''2'' (Some 0.5), video_pt ''1'' (Some 0.8)], [video_pt ''1'' (Some 0.9)]])
   \<and> (\<forall>s a b :: real. s + a + b = s + b + a)
   \<and> (\<exists>rs1 rs2.
         collect_ssim_windows_with (+) example_lookup example_get_abr_cc
           [[video_pt ''1'' (Some 0.9), video_pt ''2'' (Some 0.5)], [video_pt ''1'' (Some 0.8)]]
           ([], fresh_resolver)
         = Inr ([((Some ''puffer'', ''bbr''), 1.7, 2), ((Some ''puffer'', ''cubic''), 0.5, 1)], rs1) \<and>
         collect_ssim_windows_with (+) example_lookup example_get_abr_cc
           [[video_pt ''2'' (Some 0.5), video_pt ''1'' (Some 0.8)], [video_pt ''1'' (Some 0.9)]]
           ([], fresh_resolver)
         = Inr ([((Some ''puffer'', ''cubic''), 0.5, 1), ((Some ''puffer'', ''bbr''), 1.7, 2)], rs2))
   \<and> map_of (counts_of [((Some ''puffer'', ''bbr''), 1.7, 2), ((Some ''puffer'', ''cubic''), 0.5, 1)])
       = map_of (counts_of [((Some ''puffer'', ''cubic''), 0.5, 1), ((Some ''puffer'', ''bbr''), 1.7, 2)])
   \<and> map_of [((Some ''puffer'', ''bbr''), 1.7 :: real, 2 :: nat), ((Some ''puffer'', ''cubic''), 0.5, 1)]
       = map_of [((Some ''puffer'', ''cubic''), 0.5, 1), ((Some ''puffer'', ''bbr''), 1.7, 2)]"
proof -
  let ?P1 = "[[video_pt ''1'' (Some 0.9), video_pt ''2'' (Some 0.5)], [video_pt ''1'' (Some 0.8)]]"
  let ?P2 = "[[video_pt ''2'' (Some 0.5), video_pt ''1'' (Some 0.8)], [video_pt ''1'' (Some 0.9)]]"
  let ?D1 = "[((Some ''puffer'', ''bbr''), 1.7 :: real, 2 :: nat), ((Some ''puffer'', ''cubic''), 0.5, 1)]"
  let ?D2 = "[((Some ''puffer'', ''cubic''), 0.5 :: real, 1 :: nat), ((Some ''puffer'', ''bbr''), 1.7, 2)]"
  have h: "mset (concat ?P1) = mset (concat ?P2)"
    by (simp add: video_pt_def)
  have rc: "\<forall>s a b :: real. s + a + b = s + b + a"
    by simp
  have r1: "\<exists>rs1. collect_ssim_windows_with (+) example_lookup example_get_abr_cc ?P1 ([], fresh_resolver)
         = Inr (?D1, rs1)"
    by (simp add: example_simps)
  have r2: "\<exists>rs2. collect_ssim_windows_with (+) example_lookup example_get_abr_cc ?P2 ([], fresh_resolver)
         = Inr (?D2, rs2)"
    by (simp add: example_simps)
  from ssim_accumulation_order_independent
         [OF h, where add = "(+)" and lookup = example_lookup and g = example_get_abr_cc
            and rs = fresh_resolver, THEN conjunct1]
  have d: "(\<exists>e1 e2. collect_ssim_windows_with (+) example_lookup example_get_abr_cc ?P1 ([], fresh_resolver) = Inl e1 \<and>
                   collect_ssim_windows_with (+) example_lookup example_get_abr_cc ?P2 ([], fresh_resolver) = Inl e2)
        \<or> (\<exists>d1 rs1 d2 rs2.
             collect_ssim_windows_with (+) example_lookup example_get_abr_cc ?P1 ([], fresh_resolver) = Inr (d1, rs1) \<and>
             collect_ssim_windows_with (+) example_lookup example_get_abr_cc ?P2 ([], fresh_resolver) = Inr (d2, rs2) \<and>
             map_of (counts_of d1) = map_of (counts_of d2) \<and>
             ((\<forall>s a b :: real. s + a + b = s + b + a) \<longrightarrow> map_of d1 = map_of d2))" .
  from r1 obtain rs1 where r1': "collect_ssim_windows_with (+) example_lookup example_get_abr_cc ?P1 ([], fresh_resolver)
         = Inr (?D1, rs1)" ..
  from r2 obtain rs2 where r2': "collect_ssim_windows_with (+) example_lookup example_get_abr_cc ?P2 ([], fresh_resolver)
         = Inr (?D2, rs2)" ..
  from d have e: "map_of (counts_of ?D1) = map_of (counts_of ?D2) \<and> map_of ?D1 = map_of ?D2"
    unfolding r1' r2' using rc by simp
  from r1' r2' have rr: "\<exists>rs1 rs2.
         collect_ssim_windows_with (+) example_lookup example_get_abr_cc ?P1 ([], fresh_resolver)
         = Inr (?D1, rs1) \<and>
         collect_ssim_windows_with (+) example_lookup example_get_abr_cc ?P2 ([], fresh_resolver)
         = Inr (?D2, rs2)"
    by (intro exI conjI)
  show ?thesis
    by (rule conjI [OF h conjI [OF rc conjI [OF rr e]]])
qed

text \<open>
  The doubles written \<open>0.1\<close>, \<open>0.2\<close> and \<open>0.3\<close>, of one scheme: accumulated in this order
  the sum is the double \<open>0.6000000000000001\<close>, in the reverse order it is the double
  \<open>0.6\<close>, and the averages \<open>sum / 3\<close> are \<open>0.20000000000000004\<close> and
  \<open>0.19999999999999998\<close>. The count is 3 both times.
\<close>

theorem float_sums_depend_on_order:
  "f64_round (1 / 10) = 3602879701896397 / 2 ^ 55
   \<and> f64_round (2 / 10) = 3602879701896397 / 2 ^ 54
   \<and> f64_round (3 / 10) = 5404319552844595 / 2 ^ 54
   \<and> mset (concat [[video_pt ''1'' (Some (3602879701896397 / 2 ^ 55)),
                     video_pt ''1'' (Some (3602879701896397 / 2 ^ 54)),
                     video_pt ''1'' (Some (5404319552844595 / 2 ^ 54))]])
     = mset (concat [[video_pt ''1'' (Some (5404319552844595 / 2 ^ 54)),
                      video_pt ''1'' (Some (3602879701896397 / 2 ^ 54)),
                      video_pt ''1'' (Some (3602879701896397 / 2 ^ 55))]])
   \<and> collect_ssim_windows_with f64_add example_lookup example_get_abr_cc
       [[video_pt ''1'' (Some (3602879701896397 / 2 ^ 55)),
         video_pt ''1'' (Some (3602879701896397 / 2 ^ 54)),
         video_pt ''1'' (Some (5404319552844595 / 2 ^ 54))]] ([], fresh_resolver)
     = Inr ([((Some ''puffer'', ''bbr''), 5404319552844596 / 2 ^ 53, 3)],
            \<lparr>cache = [''1'' \<mapsto> \<lparr>cfg_id = ''1'', cfg_cc = ''bbr'', cfg_abr = Some ''puffer''\<rparr>],
               lookups = [''1'']\<rparr>)
   \<and> collect_ssim_windows_with f64_add example_lookup example_get_abr_cc
       [[video_pt ''1'' (Some (5404319552844595 / 2 ^ 54)),
         video_pt ''1'' (Some (3602879701896397 / 2 ^ 54)),
         video_pt ''1'' (Some (3602879701896397 / 2 ^ 55))]] ([], fresh_resolver)
     = Inr ([((Some ''puffer'', ''bbr''), 5404319552844595 / 2 ^ 53, 3)],
            \<lparr>cache = [''1'' \<mapsto> \<lparr>cfg_id = ''1'', cfg_cc = ''bbr'', cfg_abr = Some ''puffer''\<rparr>],
               lookups = [''1'']\<rparr>)
   \<and> (5404319552844596 / 2 ^ 53 :: real) \<noteq> 5404319552844595 / 2 ^ 53
   \<and> f64_true_divide (5404319552844596 / 2 ^ 53) 3 = 7205759403792795 / 2 ^ 55
   \<and> f64_true_divide (5404319552844595 / 2 ^ 53) 3 = 7205759403792793 / 2 ^ 55
   \<and> (7205759403792795 / 2 ^ 55 :: real) \<noteq> 7205759403792793 / 2 ^ 55"
proof -
  let ?a = "3602879701896397 / 2 ^ 55 :: real"
  let ?b = "3602879701896397 / 2 ^ 54 :: real"
  let ?c = "5404319552844595 / 2 ^ 54 :: real"
  let ?R = "\<lparr>cache = [''1'' \<mapsto> \<lparr>cfg_id = ''1'', cfg_cc = ''bbr'', cfg_abr = Some ''puffer''\<rparr>],
               lookups = [''1'']\<rparr>"
  have m: "mset (concat [[video_pt ''1'' (Some ?a), video_pt ''1'' (Some ?b), video_pt ''1'' (Some ?c)]])
     = mset (concat [[video_pt ''1'' (Some ?c), video_pt ''1'' (Some ?b), video_pt ''1'' (Some ?a)]])"
    by (simp add: video_pt_def)
  have r1: "collect_ssim_windows_with f64_add example_lookup example_get_abr_cc
       [[video_pt ''1'' (Some ?a), video_pt ''1'' (Some ?b), video_pt ''1'' (Some ?c)]]
       ([], fresh_resolver)
     = Inr ([((Some ''puffer'', ''bbr''), f64_add (f64_add (f64_add 0 ?a) ?b) ?c, 3)], ?R)"
    by (simp add: example_simps)
  have r2: "collect_ssim_windows_with f64_add example_lookup example_get_abr_cc
       [[video_pt ''1'' (Some ?c), video_pt ''1'' (Some ?b), video_pt ''1'' (Some ?a)]]
       ([], fresh_resolver)
     = Inr ([((Some ''puffer'', ''bbr''), f64_add (f64_add (f64_add 0 ?c) ?b) ?a, 3)], ?R)"
    by (simp add: example_simps)
  have s1: "f64_add (f64_add (f64_add 0 ?a) ?b) ?c = 5404319552844596 / 2 ^ 53"
    by (simp only: f64_add_0_01 f64_add_01_02 f64_add_03_03)
  have s2: "f64_add (f64_add (f64_add 0 ?c) ?b) ?a = 5404319552844595 / 2 ^ 53"
    by (simp only: f64_add_0_03 f64_add_03_02 f64_add_05_01)
  have n1: "(5404319552844596 / 2 ^ 53 :: real) \<noteq> 5404319552844595 / 2 ^ 53"
    by simp
  have n2: "(7205759403792795 / 2 ^ 55 :: real) \<noteq> 7205759403792793 / 2 ^ 55"
    by simp
  show ?thesis
    by (rule conjI [OF f64_01 conjI [OF f64_02 conjI [OF f64_03 conjI [OF m
          conjI [OF r1 [unfolded s1] conjI [OF r2 [unfolded s2] conjI [OF n1
          conjI [OF f64_div_a conjI [OF f64_div_b n2]]]]]]]]])
qed

theorem zero_count_key_stays_raw_witness:
  "collect_ssim_windows example_lookup example_get_abr_cc
     [[video_pt ''1'' (Some 0.9)], [video_pt ''2'' (Some 1)]] ([], fresh_resolver)
     = Inr ([((Some ''puffer'', ''bbr''), 0.9, 1), ((Some ''puffer'', ''cubic''), 0, 0)],
            \<lparr>cache = [''1'' \<mapsto> \<lparr>cfg_id = ''1'', cfg_cc = ''bbr'', cfg_abr = Some ''puffer''\<rparr>,
                       ''2'' \<mapsto> \<lparr>cfg_id = ''2'', cfg_cc = ''cubic'', cfg_abr = Some ''puffer''\<rparr>],
               lookups = [''1'', ''2'']\<rparr>)
   \<and> map_of [((Some ''puffer'', ''bbr''), 0.9 :: real, 1 :: nat), ((Some ''puffer'', ''cubic''), 0, 0)]
        (Some ''puffer'', ''cubic'') = Some (0, 0)
   \<and> (\<exists>d' w rs'. collect_ssim example_lookup example_get_abr_cc ssim_index_to_db
          [[video_pt ''1'' (Some 0.9)], [video_pt ''2'' (Some 1)]] fresh_resolver = Inr (d', w, rs') \<and>
        (Some ''puffer'', ''cubic'') \<in> set w \<and>
        map_of d' (Some ''puffer'', ''cubic'') = Some (SumCount 0 0) \<and> d' \<noteq> [])"
proof -
  let ?R = "\<lparr>cache = [''1'' \<mapsto> \<lparr>cfg_id = ''1'', cfg_cc = ''bbr'', cfg_abr = Some ''puffer''\<rparr>,
                       ''2'' \<mapsto> \<lparr>cfg_id = ''2'', cfg_cc = ''cubic'', cfg_abr = Some ''puffer''\<rparr>],
               lookups = [''1'', ''2'']\<rparr>"
  have h1: "collect_ssim_windows example_lookup example_get_abr_cc
     [[video_pt ''1'' (Some 0.9)], [video_pt ''2'' (Some 1)]] ([], fresh_resolver)
     = Inr ([((Some ''puffer'', ''bbr''), 0.9, 1), ((Some ''puffer'', ''cubic''), 0, 0)], ?R)"
    by (simp add: example_simps)
  have h2: "map_of [((Some ''puffer'', ''bbr''), 0.9 :: real, 1 :: nat), ((Some ''puffer'', ''cubic''), 0, 0)]
        (Some ''puffer'', ''cubic'') = Some (0, 0)"
    by simp
  from zero_count_key_stays_raw [OF h1 h2, of ssim_index_to_db] h1 h2
  show ?thesis by blast
qed

text \<open>
  Claim C10. For a key with at least one usable sample the entry that \<open>collect_ssim\<close>
  returns is the conversion applied to the mean of the indices. This is not the mean of
  the converted samples: for the indices \<open>0\<close> and \<open>0.99\<close> (0 dB and 20 dB, mean 10 dB)
  the entry is the conversion of \<open>0.495\<close>, which is not 10 dB.
\<close>

theorem average_ssim_is_db_of_mean_index:
  assumes "collect_ssim lookup g to_db pages rs = Inr (d', w, rs')"
    and "samples_of lookup rs g (concat pages) k \<noteq> []"
  shows "map_of d' k =
           Some (AvgDb (to_db (sum_list (samples_of lookup rs g (concat pages) k)
                               / real (length (samples_of lookup rs g (concat pages) k)))))
     \<and> (\<exists>w0 rs0. collect_ssim example_lookup example_get_abr_cc ssim_index_to_db
            [[video_pt ''1'' (Some 0), video_pt ''1'' (Some 0.99)]] fresh_resolver
          = Inr ([((Some ''puffer'', ''bbr''), AvgDb (ssim_index_to_db 0.495))], w0, rs0))
     \<and> ssim_index_to_db 0 = Some 0 \<and> ssim_index_to_db 0.99 = Some 20
     \<and> ssim_index_to_db 0.495 \<noteq> Some ((0 + 20) / 2)"
proof -
  have "\<exists>w0 rs0. collect_ssim example_lookup example_get_abr_cc ssim_index_to_db
            [[video_pt ''1'' (Some 0), video_pt ''1'' (Some 0.99)]] fresh_resolver
          = Inr ([((Some ''puffer'', ''bbr''), AvgDb (ssim_index_to_db 0.495))], w0, rs0)"
    by (simp add: example_simps collect_ssim_def)
  with average_of_samples [OF assms] db_0 db_099 db_mean_differs show ?thesis
    by blast
qed

theorem average_ssim_is_db_of_mean_index_witness:
  "(\<exists>w rs'. collect_ssim example_lookup example_get_abr_cc ssim_index_to_db
       [[video_pt ''1'' (Some 0.9), video_pt ''2'' (Some 0.5)], [video_pt ''1'' (Some 0.8)]]
       fresh_resolver
     = Inr ([((Some ''puffer'', ''bbr''), AvgDb (ssim_index_to_db 0.85)),
             ((Some ''puffer'', ''cubic''), AvgDb (ssim_index_to_db 0.5))], w, rs'))
   \<and> samples_of example_lookup fresh_resolver example_get_abr_cc
        (concat [[video_pt ''1'' (Some 0.9), video_pt ''2'' (Some 0.5)], [video_pt ''1'' (Some 0.8)]])
        (Some ''puffer'', ''bbr'') = [0.9, 0.8]
   \<and> map_of [((Some ''puffer'', ''bbr''), AvgDb (ssim_index_to_db 0.85)),
              ((Some ''puffer'', ''cubic''), AvgDb (ssim_index_to_db 0.5))] (Some ''puffer'', ''bbr'')
      = Some (AvgDb (ssim_index_to_db (sum_list [0.9, 0.8] / real (length [0.9 :: real, 0.8]))))"
proof -
  let ?P = "[[video_pt ''1'' (Some 0.9), video_pt ''2'' (Some 0.5)], [video_pt ''1'' (Some 0.8)]]"
  let ?D = "[((Some ''puffer'', ''bbr''), AvgDb (ssim_index_to_db 0.85)),
             ((Some ''puffer'', ''cubic''), AvgDb (ssim_index_to_db 0.5))]"
  have r: "\<exists>w rs'. collect_ssim example_lookup example_get_abr_cc ssim_index_to_db ?P fresh_resolver
     = Inr (?D, w, rs')"
    by (simp add: example_simps collect_ssim_def)
  have s: "samples_of example_lookup fresh_resolver example_get_abr_cc (concat ?P)
        (Some ''puffer'', ''bbr'') = [0.9, 0.8]"
    by (simp add: samples_of_def scheme_of_def resolved_def example_simps)
  then have ne: "samples_of example_lookup fresh_resolver example_get_abr_cc (concat ?P)
        (Some ''puffer'', ''bbr'') \<noteq> []"
    by simp
  from r obtain w rs' where r': "collect_ssim example_lookup example_get_abr_cc ssim_index_to_db ?P fresh_resolver
     = Inr (?D, w, rs')" by blast
  from average_ssim_is_db_of_mean_index [OF r' ne]
  have "map_of ?D (Some ''puffer'', ''bbr'')
      = Some (AvgDb (ssim_index_to_db (sum_list [0.9, 0.8] / real (length [0.9 :: real, 0.8]))))"
    by (simp only: s)
  with r s show ?thesis by blast
qed

section \<open>Properties of the reporter\<close>

lemma plot_ssim_rebuffer_x:
  "plot_ssim_rebuffer ssim rebuffer = Inr points \<Longrightarrow> p \<in> set points \<Longrightarrow>
     \<exists>r. map_of rebuffer (sp_key p) = Some r \<and>
         sp_x p = np_multiply
                    (np_true_divide (rebuf_minute r) (real_of_int \<lceil>total_play r / 60\<rceil>)) 100"
proof (induction ssim arbitrary: points)
  case Nil
  then show ?case by simp
next
  case (Cons a ssim)
  obtain k y where a: "a = (k, y)" by (cases a)
  from Cons.prems(1) obtain r ps where
    r: "map_of rebuffer k = Some r"
    and ps: "plot_ssim_rebuffer ssim rebuffer = Inr ps"
    and points: "points =
       \<lparr>sp_x = np_multiply
                 (np_true_divide (rebuf_minute r) (real_of_int \<lceil>total_play r / 60\<rceil>)) 100,
        sp_y = y, sp_key = k, sp_rebuf_m = total_rebuf r / 60,
        sp_play_h = total_play r / 3600\<rparr> # ps"
    by (auto simp: a Let_def split: option.splits sum.splits)
  from Cons.prems(2) points consider
    "p = \<lparr>sp_x = np_multiply
                 (np_true_divide (rebuf_minute r) (real_of_int \<lceil>total_play r / 60\<rceil>)) 100,
        sp_y = y, sp_key = k, sp_rebuf_m = total_rebuf r / 60,
        sp_play_h = total_play r / 3600\<rparr>" | "p \<in> set ps"
    by auto
  then show ?case
  proof cases
    case 1
    then show ?thesis using r by simp
  next
    case 2
    with Cons.IH [OF ps] show ?thesis .
  qed
qed

text \<open>
  Claim C2, as amended. If a key of the SSIM dictionary is missing from the rebuffer
  dictionary, the reporter exits with an error that names such a key, before the figure
  is saved. Otherwise the figure is saved with exactly one point per key of the SSIM
  dictionary: a key that only the rebuffer dictionary has raises no error and gets no
  point.
\<close>

theorem missing_in_rebuffer_exits:
  "((\<exists>k\<in>fst ` set ssim. map_of rebuffer k = None) \<longrightarrow>
      (\<exists>k. plot_ssim_rebuffer ssim rebuffer = Inl (NotInRebuffer k) \<and>
           k \<in> fst ` set ssim \<and> map_of rebuffer k = None))
   \<and> ((\<forall>k\<in>fst ` set ssim. map_of rebuffer k \<noteq> None) \<longrightarrow>
      (\<exists>points. plot_ssim_rebuffer ssim rebuffer = Inr points \<and>
           map (\<lambda>p. (sp_key p, sp_y p)) points = ssim))"
proof (intro conjI impI)
  assume missing: "\<exists>k\<in>fst ` set ssim. map_of rebuffer k = None"
  show "\<exists>k. plot_ssim_rebuffer ssim rebuffer = Inl (NotInRebuffer k) \<and>
           k \<in> fst ` set ssim \<and> map_of rebuffer k = None"
  proof (cases "plot_ssim_rebuffer ssim rebuffer")
    case (Inl e)
    then show ?thesis using plot_ssim_rebuffer_exit [OF Inl] by blast
  next
    case (Inr points)
    then show ?thesis using plot_ssim_rebuffer_points [OF Inr] missing by blast
  qed
next
  assume "\<forall>k\<in>fst ` set ssim. map_of rebuffer k \<noteq> None"
  then show "\<exists>points. plot_ssim_rebuffer ssim rebuffer = Inr points \<and>
           map (\<lambda>p. (sp_key p, sp_y p)) points = ssim"
    by (rule plot_ssim_rebuffer_ok)
qed

theorem missing_in_rebuffer_exits_witness:
  "plot_ssim_rebuffer [(''bbr'', 15 :: real), (''cubic'', 14)]
      [(''bbr'', \<lparr>total_play = 5400, total_rebuf = 60, rebuf_minute = 1\<rparr>)]
     = Inl (NotInRebuffer ''cubic'')
   \<and> (\<exists>points. plot_ssim_rebuffer [(''bbr'', 15 :: real)]
         [(''bbr'', \<lparr>total_play = 5400, total_rebuf = 60, rebuf_minute = 1\<rparr>)] = Inr points \<and>
        map (\<lambda>p. (sp_key p, sp_y p)) points = [(''bbr'', 15)])"
proof -
  let ?R = "[(''bbr'', \<lparr>total_play = 5400, total_rebuf = 60, rebuf_minute = 1\<rparr>)]"
  have h1: "\<exists>k\<in>fst ` set [(''bbr'', 15 :: real), (''cubic'', 14)]. map_of ?R k = None"
    by simp
  have h2: "\<forall>k\<in>fst ` set [(''bbr'', 15 :: real)]. map_of ?R k \<noteq> None"
    by simp
  from missing_in_rebuffer_exits [of "[(''bbr'', 15 :: real), (''cubic'', 14)]" ?R] h1
  have 1: "plot_ssim_rebuffer [(''bbr'', 15 :: real), (''cubic'', 14)] ?R
             = Inl (NotInRebuffer ''cubic'')"
    by auto
  from missing_in_rebuffer_exits [of "[(''bbr'', 15 :: real)]" ?R] h2
  have 2: "\<exists>points. plot_ssim_rebuffer [(''bbr'', 15 :: real)] ?R = Inr points \<and>
        map (\<lambda>p. (sp_key p, sp_y p)) points = [(''bbr'', 15)]"
    by blast
  from 1 2 show ?thesis by blast
qed

theorem rebuffer_only_key_is_omitted:
  "plot_ssim_rebuffer [(''bbr'', 15 :: real)]
      [(''bbr'', \<lparr>total_play = 5400, total_rebuf = 60, rebuf_minute = 1\<rparr>),
       (''cubic'', \<lparr>total_play = 3600, total_rebuf = 30, rebuf_minute = 1\<rparr>)]
     = Inr [\<lparr>sp_x = Finite (10 / 9), sp_y = 15, sp_key = ''bbr'', sp_rebuf_m = 1,
              sp_play_h = 3 / 2\<rparr>]
   \<and> map_of [(''bbr'', \<lparr>total_play = 5400, total_rebuf = 60, rebuf_minute = 1\<rparr>),
       (''cubic'', \<lparr>total_play = 3600, total_rebuf = 30, rebuf_minute = 1\<rparr>)] ''cubic''
     = Some \<lparr>total_play = 3600, total_rebuf = 30, rebuf_minute = 1\<rparr>
   \<and> map_of [(''bbr'', 15 :: real)] ''cubic'' = None
   \<and> report [(''bbr'', 15 :: real)]
      [(''bbr'', \<lparr>total_play = 5400, total_rebuf = 60, rebuf_minute = 1\<rparr>),
       (''cubic'', \<lparr>total_play = 3600, total_rebuf = 30, rebuf_minute = 1\<rparr>)]
     = Inr [\<lparr>sp_x = Finite (10 / 9), sp_y = 15, sp_key = ''bbr'', sp_rebuf_m = 1,
              sp_play_h = 3 / 2\<rparr>]"
  by (simp add: report_def Let_def np_true_divide_def)

text \<open>
  Claim C3, as amended. For every point of the saved figure the \<open>x\<close> handed to the
  plotting layer is the rebuffer rate as a percentage: \<open>rebuf_minutes\<close> divided by
  \<open>ceil(total_play / 60)\<close>, times 100. For a scheme with \<open>total_play = 5400\<close> and
  \<open>rebuf_minute = 1\<close> (the sessions \<open>(3600, 60)\<close> and \<open>(1800, 0)\<close> aggregated) the rate is
  \<open>1/90\<close> and the \<open>x\<close> handed over is \<open>100/90\<close>.
\<close>

theorem rebuffer_rate_handed_as_percentage:
  assumes "plot_ssim_rebuffer ssim rebuffer = Inr points" and "p \<in> set points"
  shows "(\<exists>r. map_of rebuffer (sp_key p) = Some r \<and>
             sp_x p = np_multiply
                        (np_true_divide (rebuf_minute r) (real_of_int \<lceil>total_play r / 60\<rceil>)) 100 \<and>
             (\<lceil>total_play r / 60\<rceil> \<noteq> 0 \<longrightarrow>
                sp_x p = Finite (rebuf_minute r / real_of_int \<lceil>total_play r / 60\<rceil> * 100)))
       \<and> np_true_divide 1 (real_of_int \<lceil>(3600 + 1800) / 60 :: real\<rceil>) = Finite (1 / 90)
       \<and> plot_ssim_rebuffer [(''bbr'', 15 :: real)]
            [(''bbr'', \<lparr>total_play = 3600 + 1800, total_rebuf = 60 + 0, rebuf_minute = 1\<rparr>)]
          = Inr [\<lparr>sp_x = Finite (1 / 90 * 100), sp_y = 15, sp_key = ''bbr'', sp_rebuf_m = 1,
                   sp_play_h = 3 / 2\<rparr>]"
proof -
  from plot_ssim_rebuffer_x [OF assms] obtain r where
    r: "map_of rebuffer (sp_key p) = Some r"
    and x: "sp_x p = np_multiply
                 (np_true_divide (rebuf_minute r) (real_of_int \<lceil>total_play r / 60\<rceil>)) 100"
    by blast
  have "sp_x p = Finite (rebuf_minute r / real_of_int \<lceil>total_play r / 60\<rceil> * 100)"
    if "\<lceil>total_play r / 60\<rceil> \<noteq> 0"
    using that x by (simp add: np_true_divide_def)
  with r x have 1: "\<exists>r. map_of rebuffer (sp_key p) = Some r \<and>
             sp_x p = np_multiply
                        (np_true_divide (rebuf_minute r) (real_of_int \<lceil>total_play r / 60\<rceil>)) 100 \<and>
             (\<lceil>total_play r / 60\<rceil> \<noteq> 0 \<longrightarrow>
                sp_x p = Finite (rebuf_minute r / real_of_int \<lceil>total_play r / 60\<rceil> * 100))"
    by blast
  have 2: "np_true_divide 1 (real_of_int \<lceil>(3600 + 1800) / 60 :: real\<rceil>) = Finite (1 / 90)"
    by (simp add: np_true_divide_def)
  have 3: "plot_ssim_rebuffer [(''bbr'', 15 :: real)]
            [(''bbr'', \<lparr>total_play = 3600 + 1800, total_rebuf = 60 + 0, rebuf_minute = 1\<rparr>)]
          = Inr [\<lparr>sp_x = Finite (1 / 90 * 100), sp_y = 15, sp_key = ''bbr'', sp_rebuf_m = 1,
                   sp_play_h = 3 / 2\<rparr>]"
    by (simp add: Let_def np_true_divide_def)
  show ?thesis by (rule conjI [OF 1 conjI [OF 2 3]])
qed

theorem rebuffer_rate_handed_as_percentage_witness:
  "plot_ssim_rebuffer [(''bbr'', 15 :: real)]
      [(''bbr'', \<lparr>total_play = 5400, total_rebuf = 60, rebuf_minute = 1\<rparr>)]
     = Inr [\<lparr>sp_x = Finite (10 / 9), sp_y = 15, sp_key = ''bbr'', sp_rebuf_m = 1,
              sp_play_h = 3 / 2\<rparr>]
   \<and> (\<exists>r. map_of [(''bbr'', \<lparr>total_play = 5400, total_rebuf = 60, rebuf_minute = 1\<rparr>)] ''bbr''
            = Some r \<and>
          Finite (10 / 9) = np_multiply
             (np_true_divide (rebuf_minute r) (real_of_int \<lceil>total_play r / 60\<rceil>)) 100)"
proof -
  let ?p = "\<lparr>sp_x = Finite (10 / 9), sp_y = 15 :: real, sp_key = ''bbr'', sp_rebuf_m = 1,
              sp_play_h = 3 / 2\<rparr>"
  let ?R = "[(''bbr'', \<lparr>total_play = 5400, total_rebuf = 60, rebuf_minute = 1\<rparr>)]"
  have h1: "plot_ssim_rebuffer [(''bbr'', 15 :: real)] ?R = Inr [?p]"
    by (simp add: Let_def np_true_divide_def)
  have h2: "?p \<in> set [?p]" by simp
  note c = rebuffer_rate_handed_as_percentage [OF h1 h2, THEN conjunct1]
  from c obtain r where
    "map_of ?R (sp_key ?p) = Some r"
    "sp_x ?p = np_multiply
       (np_true_divide (rebuf_minute r) (real_of_int \<lceil>total_play r / 60\<rceil>)) 100"
    by blast
  then have "map_of ?R ''bbr'' = Some r \<and>
      Finite (10 / 9) = np_multiply
       (np_true_divide (rebuf_minute r) (real_of_int \<lceil>total_play r / 60\<rceil>)) 100"
    by (simp only: scatter_point.simps)
  then have "\<exists>r. map_of ?R ''bbr'' = Some r \<and>
      Finite (10 / 9) = np_multiply
       (np_true_divide (rebuf_minute r) (real_of_int \<lceil>total_play r / 60\<rceil>)) 100"
    by (rule exI)
  with h1 show ?thesis by (rule conjI)
qed

theorem rebuffer_rate_not_handed_as_fraction:
  "plot_ssim_rebuffer [(''bbr'', 15 :: real)]
      [(''bbr'', \<lparr>total_play = 5400, total_rebuf = 60, rebuf_minute = 1\<rparr>)]
     = Inr [\<lparr>sp_x = Finite (10 / 9), sp_y = 15, sp_key = ''bbr'', sp_rebuf_m = 1,
              sp_play_h = 3 / 2\<rparr>]
   \<and> np_true_divide 1 (real_of_int \<lceil>5400 / 60 :: real\<rceil>) = Finite (1 / 90)
   \<and> Finite (10 / 9) \<noteq> Finite (1 / 90)"
  by (simp add: Let_def np_true_divide_def)

section \<open>Properties of the rebuffer-rate loop\<close>

lemma series_update:
  "series (AList.update k xs m) j = (if j = k then xs else series m j)"
  by (simp add: series_def update_conv')













section \<open>Samples with an SSIM index of 1\<close>

lemma samples_of_drop_perfect:
  "samples_of lookup rs g (drop_perfect_pts pts) k = samples_of lookup rs g pts k"
  by (induction pts)
     (auto simp: drop_perfect_pts_def samples_of_Cons get_ssim_index_def)

lemma drop_perfect_pts_concat:
  "concat (map drop_perfect_pts pages) = drop_perfect_pts (concat pages)"
  by (induction pages) (simp_all add: drop_perfect_pts_def)

lemma drop_perfect_pts_subset: "set (drop_perfect_pts pts) \<subseteq> set pts"
  by (auto simp: drop_perfect_pts_def)

lemma drop_perfect_accumulated:
  assumes run: "collect_ssim_windows lookup g pages ([], rs) = Inr (d, rs')"
  shows "\<exists>d0 rs0. collect_ssim_windows lookup g (map drop_perfect_pts pages) ([], rs) = Inr (d0, rs0)
           \<and> (\<forall>k. sum_count d0 k = sum_count d k)"
proof -
  have "\<forall>pt\<in>set (concat pages). resolved lookup rs (pt_expt_id pt) \<noteq> None"
    using run do_collect_ssim_succeeds [of "concat pages" lookup rs g "[]"]
    unfolding collect_ssim_windows_concat by blast
  then have "\<forall>pt\<in>set (drop_perfect_pts (concat pages)). resolved lookup rs (pt_expt_id pt) \<noteq> None"
    using drop_perfect_pts_subset by blast
  then obtain d0 rs0 where
    r0: "collect_ssim_windows lookup g (map drop_perfect_pts pages) ([], rs) = Inr (d0, rs0)"
    using do_collect_ssim_succeeds [of "drop_perfect_pts (concat pages)" lookup rs g "[]"]
    unfolding collect_ssim_windows_concat drop_perfect_pts_concat by blast
  have "sum_count d0 k = sum_count d k" for k
    unfolding accumulated_pair [OF r0] accumulated_pair [OF run]
    by (simp only: drop_perfect_pts_concat samples_of_drop_perfect)
  with r0 show ?thesis by blast
qed

lemma averaged_entry_iff:
  "map_of (fst (average_ssim to_db d)) k = Some (AvgDb v) \<longleftrightarrow>
     snd (sum_count d k) \<noteq> 0 \<and>
     v = to_db (fst (sum_count d k) / real (snd (sum_count d k)))"
  by (auto simp: average_ssim_map_of sum_count_def split: option.splits)

lemma map_of_filter_None:
  "map_of ds k = None \<Longrightarrow> map_of (filter P ds) k = None"
  by (induction ds) (auto split: if_splits)

lemma not_perfect_pair [simp]: "not_perfect (ts, v) \<longleftrightarrow> dsv_ssim_index v \<noteq> 1"
  by (simp add: not_perfect_def)

lemma map_of_filter_distinct_keys:
  "distinct (map fst ds) \<Longrightarrow>
     map_of (filter P ds) k =
       (case map_of ds k of None \<Rightarrow> None | Some v \<Rightarrow> if P (k, v) then Some v else None)"
proof (induction ds)
  case Nil
  then show ?case by simp
next
  case (Cons a ds)
  obtain j w where a: "a = (j, w)" by (cases a)
  from Cons.prems have nj: "map_of ds j = None"
    by (simp add: a map_of_eq_None_iff)
  from Cons.prems have "distinct (map fst ds)" by simp
  note ih = Cons.IH [OF this]
  show ?case
    using nj map_of_filter_None [OF nj, of P] by (auto simp: a ih split: option.splits)
qed

lemma plot_ssim_session_filter:
  assumes "distinct (map fst ds)"
  shows "plot_ssim_session to_db vd (filter not_perfect ds) (filter not_perfect rest) acc
           = plot_ssim_session to_db vd ds rest acc"
proof (induction rest arbitrary: acc)
  case Nil
  then show ?case by simp
next
  case (Cons a rest)
  obtain ts v where a: "a = (ts, v)" by (cases a)
  obtain ssims vars where acc: "acc = (ssims, vars)" by (cases acc)
  note look = map_of_filter_distinct_keys [OF assms, of not_perfect]
  show ?case
    unfolding a acc
    by (simp add: Cons.IH look Let_def split: option.splits)
qed

lemma plot_ssim_loop_drop_perfect:
  "(\<forall>e\<in>set d. distinct (map fst (snd e))) \<Longrightarrow>
     plot_ssim_loop to_db vd lookup (drop_perfect d) st = plot_ssim_loop to_db vd lookup d st"
proof (induction d arbitrary: st)
  case Nil
  then show ?case by (simp add: drop_perfect_def)
next
  case (Cons a d)
  obtain session ds where a: "a = (session, ds)" by (cases a)
  obtain by_cc var_by_cc rs where st: "st = (by_cc, var_by_cc, rs)" by (cases st)
  from Cons.prems have dist: "distinct (map fst ds)" and rest: "\<forall>e\<in>set d. distinct (map fst (snd e))"
    by (simp_all add: a)
  have d: "drop_perfect ((session, ds) # d) = (session, filter not_perfect ds) # drop_perfect d"
    by (simp add: drop_perfect_def)
  show ?case
    unfolding a st d
    by (simp add: Cons.IH [OF rest] plot_ssim_session_filter [OF dist] Let_def
          split: prod.splits sum.splits)
qed

text \<open>
  Claim C4. A sample whose SSIM index is exactly 1 contributes to no aggregate. In
  \<open>collect_ssim\<close> a run that succeeds gives every key the same \<open>(sum, count)\<close> and the same
  average as the run over the input without those samples. \<open>plot_ssim\<close> hands the same
  SSIM series and the same variation series to the CDF plots as it does for the input
  without those samples (each \<open>d[session]\<close> being a dictionary, its keys are distinct).
\<close>

theorem perfect_ssim_contributes_nothing:
  "(collect_ssim lookup g to_db pages rs = Inr (a, w, rs') \<longrightarrow>
      (\<exists>d d0 a0 w0 rs0.
          collect_ssim_windows lookup g pages ([], rs) = Inr (d, rs') \<and>
          collect_ssim_windows lookup g (map drop_perfect_pts pages) ([], rs) = Inr (d0, rs0) \<and>
          (\<forall>k. sum_count d0 k = sum_count d k) \<and>
          collect_ssim lookup g to_db (map drop_perfect_pts pages) rs = Inr (a0, w0, rs0) \<and>
          (\<forall>k v. map_of a0 k = Some (AvgDb v) \<longleftrightarrow> map_of a k = Some (AvgDb v))))
   \<and> ((\<forall>e\<in>set sessions. distinct (map fst (snd e))) \<longrightarrow>
        plot_ssim to_db' video_duration lookup' (drop_perfect sessions) rs2
          = plot_ssim to_db' video_duration lookup' sessions rs2)"
proof (intro conjI impI)
  assume "collect_ssim lookup g to_db pages rs = Inr (a, w, rs')"
  then obtain d where run: "collect_ssim_windows lookup g pages ([], rs) = Inr (d, rs')"
    and a: "a = fst (average_ssim to_db d)"
    using collect_ssim_InrD by blast
  from drop_perfect_accumulated [OF run] obtain d0 rs0 where
    r0: "collect_ssim_windows lookup g (map drop_perfect_pts pages) ([], rs) = Inr (d0, rs0)"
    and sc: "\<forall>k. sum_count d0 k = sum_count d k"
    by blast
  let ?a0 = "fst (average_ssim to_db d0)"
  let ?w0 = "snd (average_ssim to_db d0)"
  have c0: "collect_ssim lookup g to_db (map drop_perfect_pts pages) rs = Inr (?a0, ?w0, rs0)"
    using r0 by (rule collect_ssim_Inr)
  have "map_of ?a0 k = Some (AvgDb v) \<longleftrightarrow> map_of a k = Some (AvgDb v)" for k v
    unfolding a averaged_entry_iff by (simp only: sc)
  with run r0 sc c0
  show "\<exists>d d0 a0 w0 rs0.
          collect_ssim_windows lookup g pages ([], rs) = Inr (d, rs') \<and>
          collect_ssim_windows lookup g (map drop_perfect_pts pages) ([], rs) = Inr (d0, rs0) \<and>
          (\<forall>k. sum_count d0 k = sum_count d k) \<and>
          collect_ssim lookup g to_db (map drop_perfect_pts pages) rs = Inr (a0, w0, rs0) \<and>
          (\<forall>k v. map_of a0 k = Some (AvgDb v) \<longleftrightarrow> map_of a k = Some (AvgDb v))"
    by blast
next
  assume "\<forall>e\<in>set sessions. distinct (map fst (snd e))"
  then show "plot_ssim to_db' video_duration lookup' (drop_perfect sessions) rs2
          = plot_ssim to_db' video_duration lookup' sessions rs2"
    unfolding plot_ssim_def by (rule plot_ssim_loop_drop_perfect)
qed

theorem perfect_ssim_contributes_nothing_witness:
  "collect_ssim example_lookup example_get_abr_cc ssim_index_to_db
       [[video_pt ''1'' (Some 0.9), video_pt ''1'' (Some 1)], [video_pt ''2'' (Some 1)]]
       fresh_resolver
     = Inr ([((Some ''puffer'', ''bbr''), AvgDb (ssim_index_to_db 0.9)),
             ((Some ''puffer'', ''cubic''), SumCount 0 0)],
            [(Some ''puffer'', ''cubic'')],
            \<lparr>cache = [''1'' \<mapsto> \<lparr>cfg_id = ''1'', cfg_cc = ''bbr'', cfg_abr = Some ''puffer''\<rparr>,
                       ''2'' \<mapsto> \<lparr>cfg_id = ''2'', cfg_cc = ''cubic'', cfg_abr = Some ''puffer''\<rparr>],
               lookups = [''1'', ''2'']\<rparr>)
   \<and> (\<exists>d d0 a0 w0 rs0.
          collect_ssim_windows example_lookup example_get_abr_cc
            [[video_pt ''1'' (Some 0.9), video_pt ''1'' (Some 1)], [video_pt ''2'' (Some 1)]]
            ([], fresh_resolver)
          = Inr (d, \<lparr>cache = [''1'' \<mapsto> \<lparr>cfg_id = ''1'', cfg_cc = ''bbr'', cfg_abr = Some ''puffer''\<rparr>,
                       ''2'' \<mapsto> \<lparr>cfg_id = ''2'', cfg_cc = ''cubic'', cfg_abr = Some ''puffer''\<rparr>],
               lookups = [''1'', ''2'']\<rparr>) \<and>
          collect_ssim_windows example_lookup example_get_abr_cc
            (map drop_perfect_pts
               [[video_pt ''1'' (Some 0.9), video_pt ''1'' (Some 1)], [video_pt ''2'' (Some 1)]])
            ([], fresh_resolver)
          = Inr (d0, rs0) \<and>
          (\<forall>k. sum_count d0 k = sum_count d k) \<and>
          collect_ssim example_lookup example_get_abr_cc ssim_index_to_db
            (map drop_perfect_pts
               [[video_pt ''1'' (Some 0.9), video_pt ''1'' (Some 1)], [video_pt ''2'' (Some 1)]])
            fresh_resolver
          = Inr (a0, w0, rs0) \<and>
          (\<forall>k v. map_of a0 k = Some (AvgDb v) \<longleftrightarrow>
                 map_of [((Some ''puffer'', ''bbr''), AvgDb (ssim_index_to_db 0.9)),
                         ((Some ''puffer'', ''cubic''), SumCount 0 0)] k = Some (AvgDb v)))
   \<and> plot_ssim (\<lambda>i. 100 * i) 10 example_lookup
        (drop_perfect
          [((''u'', 1, ''abc'', ''1''),
            [(0, \<lparr>dsv_ssim_index = 0.9\<rparr>), (10, \<lparr>dsv_ssim_index = 1\<rparr>),
             (20, \<lparr>dsv_ssim_index = 0.99\<rparr>), (30, \<lparr>dsv_ssim_index = 0.5\<rparr>)])])
        fresh_resolver
      = plot_ssim (\<lambda>i. 100 * i) 10 example_lookup
          [((''u'', 1, ''abc'', ''1''),
            [(0, \<lparr>dsv_ssim_index = 0.9\<rparr>), (10, \<lparr>dsv_ssim_index = 1\<rparr>),
             (20, \<lparr>dsv_ssim_index = 0.99\<rparr>), (30, \<lparr>dsv_ssim_index = 0.5\<rparr>)])]
          fresh_resolver
   \<and> plot_ssim (\<lambda>i. 100 * i) 10 example_lookup
          [((''u'', 1, ''abc'', ''1''),
            [(0, \<lparr>dsv_ssim_index = 0.9\<rparr>), (10, \<lparr>dsv_ssim_index = 1\<rparr>),
             (20, \<lparr>dsv_ssim_index = 0.99\<rparr>), (30, \<lparr>dsv_ssim_index = 0.5\<rparr>)])]
          fresh_resolver
      = Inr ([(''bbr'', [90, 99, 50])], [(''bbr'', [49])],
             \<lparr>cache = [''1'' \<mapsto> \<lparr>cfg_id = ''1'', cfg_cc = ''bbr'', cfg_abr = Some ''puffer''\<rparr>],
                lookups = [''1'']\<rparr>)"
proof -
  let ?pages = "[[video_pt ''1'' (Some 0.9), video_pt ''1'' (Some 1)], [video_pt ''2'' (Some 1)]]"
  let ?S = "[((''u'', 1 :: nat, ''abc'', ''1''),
            [(0 :: int, \<lparr>dsv_ssim_index = 0.9\<rparr>), (10, \<lparr>dsv_ssim_index = 1\<rparr>),
             (20, \<lparr>dsv_ssim_index = 0.99\<rparr>), (30, \<lparr>dsv_ssim_index = 0.5\<rparr>)])]"
  have h1: "collect_ssim example_lookup example_get_abr_cc ssim_index_to_db ?pages fresh_resolver
     = Inr ([((Some ''puffer'', ''bbr''), AvgDb (ssim_index_to_db 0.9)),
             ((Some ''puffer'', ''cubic''), SumCount 0 0)],
            [(Some ''puffer'', ''cubic'')],
            \<lparr>cache = [''1'' \<mapsto> \<lparr>cfg_id = ''1'', cfg_cc = ''bbr'', cfg_abr = Some ''puffer''\<rparr>,
                       ''2'' \<mapsto> \<lparr>cfg_id = ''2'', cfg_cc = ''cubic'', cfg_abr = Some ''puffer''\<rparr>],
               lookups = [''1'', ''2'']\<rparr>)"
    by (simp add: example_simps collect_ssim_def)
  have h2: "\<forall>e\<in>set ?S. distinct (map fst (snd e))"
    by simp
  have v: "plot_ssim (\<lambda>i. 100 * i) 10 example_lookup ?S fresh_resolver
      = Inr ([(''bbr'', [90, 99, 50])], [(''bbr'', [49])],
             \<lparr>cache = [''1'' \<mapsto> \<lparr>cfg_id = ''1'', cfg_cc = ''bbr'', cfg_abr = Some ''puffer''\<rparr>],
                lookups = [''1'']\<rparr>)"
    by (simp add: example_simps plot_ssim_def session_expt_id_def series_def)
  note t = perfect_ssim_contributes_nothing
    [of example_lookup example_get_abr_cc ssim_index_to_db ?pages fresh_resolver _ _ _
        ?S "\<lambda>i. 100 * i" 10 example_lookup fresh_resolver]
  note t1 = t [THEN conjunct1, THEN mp, OF h1]
  note t2 = t [THEN conjunct2, THEN mp, OF h2]
  show ?thesis by (rule conjI [OF h1 conjI [OF t1 conjI [OF t2 v]]])
qed

section \<open>Properties of the buffer stream\<close>

lemma state_of_not_NO_DATA [simp]: "state_of i \<noteq> NO_DATA"
  by (cases i) (simp_all add: state_of_def)

















end
